theory Spec2Isabelle
  imports Complex_Main
begin

section \<open>TherapyTune: client-side audio features and request orchestration\<close>

text \<open>
  The repository holds two variants of one single-page application: the simple variant
  (\<^verbatim>\<open>src/unnamed/part_000\<close>, component \<^verbatim>\<open>App\<close> with \<^verbatim>\<open>handleAnalyze\<close>) and the
  extended variant (\<^verbatim>\<open>src/index.tsx\<close>, component \<^verbatim>\<open>App\<close> with
  \<^verbatim>\<open>handleAnalyzeContext\<close> and \<^verbatim>\<open>generatePlaylist\<close>). Both share the hook
  \<^verbatim>\<open>useAudioRecorder\<close> with its function \<^verbatim>\<open>analyzeRecordedAudio\<close>.

  JavaScript numbers are modelled as real numbers: sample values are finite reals (a
  decoded \<^verbatim>\<open>Float32Array\<close> holds no NaN here), sums and quotients are exact. The one
  place where the source produces NaN from finite inputs, the quotient \<^verbatim>\<open>0 / 0\<close> on an
  empty sample array, is written out.
\<close>

subsection \<open>Audio feature extraction (\<^verbatim>\<open>analyzeRecordedAudio\<close>)\<close>

datatype jsnum = NaN | Num real

record Metrics =
  rms :: jsnum
  zcr :: jsnum

text \<open>
  The condition of the \<^verbatim>\<open>if\<close> inside the loop, without its guard \<^verbatim>\<open>i > 0\<close>:
  \<^verbatim>\<open>(data[i] >= 0 && data[i-1] < 0) || (data[i] < 0 && data[i-1] >= 0)\<close>.
\<close>

definition crossing :: "real list \<Rightarrow> nat \<Rightarrow> bool" where
  "crossing data i =
     ((data ! i \<ge> 0 \<and> data ! (i - 1) < 0) \<or> (data ! i < 0 \<and> data ! (i - 1) \<ge> 0))"

text \<open>
  The loop \<^verbatim>\<open>for (let i = 0; i < data.length; i++)\<close> with its two accumulators
  \<^verbatim>\<open>sumSquares\<close> and \<^verbatim>\<open>zeroCrossings\<close>. Every read \<open>data ! i\<close> and \<open>data ! (i - 1)\<close>
  is in range: the first by the loop condition, the second by the guard \<open>0 < i\<close>.
\<close>

function analyze_loop :: "real list \<Rightarrow> nat \<Rightarrow> real \<Rightarrow> nat \<Rightarrow> real \<times> nat" where
  "analyze_loop data i sumSquares zeroCrossings =
     (if i < length data then
        analyze_loop data (i + 1) (sumSquares + data ! i * data ! i)
          (if 0 < i \<and> crossing data i then zeroCrossings + 1 else zeroCrossings)
      else (sumSquares, zeroCrossings))"
  by pat_completeness auto
termination
  by (relation "measure (\<lambda>(data, i, s, z). length data - i)") auto

declare analyze_loop.simps [simp del]

text \<open>
  \<^verbatim>\<open>const rms = Math.sqrt(sumSquares / data.length); const zcr = zeroCrossings / data.length;\<close>
  On an empty array both quotients are \<^verbatim>\<open>0 / 0\<close>, which is NaN in JavaScript (and
  \<^verbatim>\<open>Math.sqrt(NaN)\<close> is NaN).
\<close>

definition compute_metrics :: "real list \<Rightarrow> Metrics" where
  "compute_metrics data =
     (let (sumSquares, zeroCrossings) = analyze_loop data 0 0 0 in
      if length data = 0 then \<lparr>rms = NaN, zcr = NaN\<rparr>
      else \<lparr>rms = Num (sqrt (sumSquares / real (length data))),
             zcr = Num (real zeroCrossings / real (length data))\<rparr>)"

text \<open>The sign rule of the specification: a sample of exactly 0 is non-negative.\<close>

definition nonneg :: "real \<Rightarrow> bool" where
  "nonneg x = (0 \<le> x)"

definition sign_changes :: "real list \<Rightarrow> nat set" where
  "sign_changes data = {i. 1 \<le> i \<and> i < length data \<and> nonneg (data ! i) \<noteq> nonneg (data ! (i - 1))}"

subsection \<open>JSON values and what the handlers read from them\<close>

text \<open>
  The handlers take \<^verbatim>\<open>JSON.parse(text)\<close> as it comes (\<^verbatim>\<open>as any\<close>, \<^verbatim>\<open>as AiSuggestion\<close>,
  \<^verbatim>\<open>as PlaylistResponse\<close> are unchecked casts), so the model keeps the parsed value
  as a JSON value. A JavaScript value that may be \<^verbatim>\<open>undefined\<close> is a \<open>json option\<close>.
  An object is an association list read with \<open>map_of\<close>.
\<close>

datatype json =
    JNull
  | JBool bool
  | JNum real
  | JStr string
  | JArr "json list"
  | JObj "(string \<times> json) list"

type_synonym jsval = "json option"

text \<open>
  A property read \<^verbatim>\<open>v.k\<close> on a value that is not \<^verbatim>\<open>null\<close> (on \<^verbatim>\<open>null\<close> it throws a
  TypeError; the callers test for \<open>JNull\<close> first). The keys the handlers read
  (\<^verbatim>\<open>energy\<close>, ..., \<^verbatim>\<open>voice_analysis\<close>, \<^verbatim>\<open>songs\<close>, \<^verbatim>\<open>suggested_state\<close>) are no
  properties of numbers, booleans, strings or arrays, so the read is \<^verbatim>\<open>undefined\<close> there.
\<close>

fun get_prop :: "json \<Rightarrow> string \<Rightarrow> jsval" where
  "get_prop (JObj kvs) k = map_of kvs k"
| "get_prop _ k = None"

text \<open>JavaScript truthiness, as the conditions \<^verbatim>\<open>if (x)\<close> and \<^verbatim>\<open>x && ...\<close> use it.\<close>

fun truthy_json :: "json \<Rightarrow> bool" where
  "truthy_json JNull = False"
| "truthy_json (JBool b) = b"
| "truthy_json (JNum x) = (x \<noteq> 0)"
| "truthy_json (JStr t) = (t \<noteq> [])"
| "truthy_json (JArr _) = True"
| "truthy_json (JObj _) = True"

fun truthy :: "jsval \<Rightarrow> bool" where
  "truthy None = False"
| "truthy (Some v) = truthy_json v"

text \<open>
  The object spread \<^verbatim>\<open>{...prev, [axis]: val}\<close> of \<^verbatim>\<open>handleSliderChange\<close>: the own
  enumerable properties of \<^verbatim>\<open>prev\<close> (none for \<^verbatim>\<open>undefined\<close>, \<^verbatim>\<open>null\<close>, numbers and
  booleans; the indices for strings and arrays), then the key set or overwritten.
\<close>

fun show_nat :: "nat \<Rightarrow> string" where
  "show_nat n =
     (if n < 10 then [char_of (48 + n)]
      else show_nat (n div 10) @ [char_of (48 + n mod 10)])"

declare show_nat.simps [simp del]

fun own_entries :: "jsval \<Rightarrow> (string \<times> json) list" where
  "own_entries (Some (JObj kvs)) = kvs"
| "own_entries (Some (JArr xs)) = zip (map show_nat [0..<length xs]) xs"
| "own_entries (Some (JStr t)) = zip (map show_nat [0..<length t]) (map (\<lambda>c. JStr [c]) t)"
| "own_entries _ = []"

fun set_prop :: "string \<Rightarrow> json \<Rightarrow> (string \<times> json) list \<Rightarrow> (string \<times> json) list" where
  "set_prop k v [] = [(k, v)]"
| "set_prop k v ((k', v') # kvs) =
     (if k' = k then (k, v) # kvs else (k', v') # set_prop k v kvs)"

subsection \<open>The emotional state model\<close>

text \<open>
  \<^verbatim>\<open>interface AxisState\<close>. The fields are typed \<^verbatim>\<open>number\<close> in the source, but the object
  literal in \<^verbatim>\<open>handleAnalyze\<close> fills them from the parsed response without a check, so
  they hold whatever the response held.
\<close>

record AxisState =
  energy :: jsval
  reality :: jsval
  temporal :: jsval
  repetition :: jsval
  hedonic :: jsval
  summary :: jsval

definition HEALTHY_TARGET :: AxisState where
  "HEALTHY_TARGET =
     \<lparr>energy = Some (JNum 0), reality = Some (JNum (2 / 10)), temporal = Some (JNum 0),
      repetition = Some (JNum 0), hedonic = Some (JNum (2 / 10)), summary = None\<rparr>"

definition INITIAL_STATE :: json where
  "INITIAL_STATE =
     JObj [(''energy'', JNum 0), (''reality'', JNum 0), (''temporal'', JNum 0),
           (''repetition'', JNum 0), (''hedonic'', JNum 0), (''summary'', JStr ''Neutral'')]"

definition AXES :: "string list" where
  "AXES = [''energy'', ''reality'', ''temporal'', ''repetition'', ''hedonic'']"

definition GENRE_IDS :: "string list" where
  "GENRE_IDS = [''kpop'', ''jpop'', ''pop'', ''classical'', ''jazz'', ''ambient'', ''lofi'',
                ''indie'', ''folk'', ''rnb'', ''hiphop'', ''rock'', ''electronic'', ''edm'']"

subsection \<open>Requests, responses, suspended handlers and events\<close>

text \<open>
  \<^verbatim>\<open>type ViewState\<close> of both variants in one type (\<open>RECORDING\<close> is declared by the simple
  variant and never set; \<open>CONFIRMATION\<close> exists in the extended variant only), and
  \<^verbatim>\<open>type Tab\<close>, whose \<open>VOICE\<close> and \<open>TEXT\<close> are also the simple variant's
  \<^verbatim>\<open>InputMode\<close>.
\<close>

datatype ViewState = INPUT | RECORDING | ANALYZING | CONFIRMATION | PLAYLIST

datatype Tab = SLIDERS | VOICE | TEXT

type_synonym InputMode = Tab

type_synonym blob = string

text \<open>
  A call of \<^verbatim>\<open>ai.models.generateContent\<close>, by what its prompt embeds. The fixed wording
  of the prompts and the response schemas are left out.
\<close>

datatype request =
    AnalyzeVoice string string
  | AnalyzeText string
  | PlaylistFor AxisState AxisState
  | ContextVoice jsval string string
  | ContextText jsval string
  | PlaylistJourney jsval AxisState "string list" "string list"

fun is_playlist_request :: "request \<Rightarrow> bool" where
  "is_playlist_request (PlaylistFor c t) = True"
| "is_playlist_request (PlaylistJourney c t g x) = True"
| "is_playlist_request _ = False"

text \<open>
  How an awaited call ends. \<open>TransportFailure\<close>: the promise rejects. \<open>EmptyResponse\<close>:
  \<^verbatim>\<open>resp.text\<close> is \<^verbatim>\<open>undefined\<close> or the empty string. \<open>NonJson\<close>: \<^verbatim>\<open>JSON.parse\<close> throws a
  SyntaxError on the text. \<open>Json v\<close>: the text parses to \<open>v\<close>.
\<close>

datatype ai_outcome = TransportFailure | EmptyResponse | NonJson | Json json

text \<open>
  An invocation of an async handler that is suspended at an \<^verbatim>\<open>await\<close>, with what its
  closure captured and still needs: at \<^verbatim>\<open>await blobToBase64(audioBlob)\<close> the \<^verbatim>\<open>metrics\<close>
  (and, in the extended variant, the \<^verbatim>\<open>manualState\<close>) of the render that was clicked.
\<close>

datatype task =
    AwaitBase64 "Metrics option"
  | AwaitBase64Context "Metrics option" jsval
  | AwaitAnalysis
  | AwaitPlaylist

text \<open>
  What can happen to the page: a click on a control, the settling of an awaited promise,
  the firing of a timer. \<open>StartRecording granted\<close> is a click on the microphone button
  with the outcome of \<^verbatim>\<open>getUserMedia\<close>; \<open>StopRecording b d\<close> is a click on the stop
  button, with the blob \<open>b\<close> the recorder delivers to \<^verbatim>\<open>onstop\<close> and the outcome \<open>d\<close> of
  \<^verbatim>\<open>decodeAudioData\<close> on it (\<open>None\<close>: decoding throws); the model takes the decoding to
  end before the next event. \<open>Base64Settled i r\<close> and \<open>AiSettled i out\<close> settle the
  \<open>i\<close>-th suspended handler.
\<close>

datatype event =
    SetInputMode InputMode
  | SetActiveTab Tab
  | SliderChange string real
  | ToggleGenre string
  | ToggleExcluded string
  | ChangeText string
  | StartRecording bool
  | StopRecording blob "real list option"
  | RecordAgain bool
  | Analyze
  | CheckWithAI
  | FindMusic
  | AcceptSuggestion
  | KeepSettings
  | Base64Settled nat "string option"
  | AiSettled nat ai_outcome
  | Timer300
  | Timer1000
  | StartOver

subsection \<open>State shared by both variants\<close>

text \<open>
  The state of \<^verbatim>\<open>useAudioRecorder\<close> (\<open>isRecording\<close>, \<open>audioBlob\<close>, \<open>metrics\<close>), the state
  of \<^verbatim>\<open>App\<close> that both variants have, the suspended handlers, and two logs of effects:
  the requests sent to the AI service and the \<^verbatim>\<open>alert\<close> boxes shown to the user.
\<close>

record Session =
  isRecording :: bool
  audioBlob :: "blob option"
  metrics :: "Metrics option"
  view :: ViewState
  loading :: bool
  inputText :: string
  tasks :: "task list"
  sent :: "request list"
  alerts :: "string list"

text \<open>
  \<^verbatim>\<open>analyzeRecordedAudio\<close>: on a decoded sample array the metrics are stored; when decoding
  throws, the \<^verbatim>\<open>catch\<close> only logs to the console and the state is left as it was.
\<close>

definition analyzeRecordedAudio :: "real list option \<Rightarrow> 'a Session_scheme \<Rightarrow> 'a Session_scheme" where
  "analyzeRecordedAudio decoded s =
     (case decoded of
        Some data \<Rightarrow> s\<lparr>metrics := Some (compute_metrics data)\<rparr>
      | None \<Rightarrow> s)"

text \<open>\<^verbatim>\<open>stopRecording\<close>, and the recorder's \<^verbatim>\<open>onstop\<close> callback.\<close>

definition stopRecording :: "'a Session_scheme \<Rightarrow> 'a Session_scheme" where
  "stopRecording s = (if isRecording s then s\<lparr>isRecording := False\<rparr> else s)"

definition onstop :: "blob \<Rightarrow> real list option \<Rightarrow> 'a Session_scheme \<Rightarrow> 'a Session_scheme" where
  "onstop b decoded s = analyzeRecordedAudio decoded (s\<lparr>audioBlob := Some b\<rparr>)"

text \<open>
  \<^verbatim>\<open>String.prototype.trim\<close> on a string of Latin-1 characters: it strips tab, line feed,
  vertical tab, form feed, carriage return, space and no-break space from both ends.
\<close>

definition is_space :: "char \<Rightarrow> bool" where
  "is_space c = (of_char c \<in> {9, 10, 11, 12, 13, 32, 160 :: nat})"

definition trim :: "string \<Rightarrow> string" where
  "trim t = rev (dropWhile is_space (rev (dropWhile is_space t)))"

text \<open>Removing the \<open>i\<close>-th suspended handler when it has run to its end.\<close>

definition drop_task :: "nat \<Rightarrow> task list \<Rightarrow> task list" where
  "drop_task i ts = take i ts @ drop (Suc i) ts"

subsection \<open>The simple variant (\<^verbatim>\<open>src/unnamed/part_000\<close>)\<close>

text \<open>
  The state of \<^verbatim>\<open>App\<close>, and the callbacks of \<^verbatim>\<open>setTimeout\<close> that have not fired yet:
  \<open>timers300\<close> counts the pending \<^verbatim>\<open>setView("ANALYZING")\<close>, \<open>timers1000\<close> the pending
  \<^verbatim>\<open>setLoading(false); setView("PLAYLIST")\<close>.
\<close>

record SimpleApp = Session +
  inputMode :: InputMode
  userState :: "AxisState option"
  voiceMetrics :: jsval
  playlist :: jsval
  timers300 :: nat
  timers1000 :: nat

definition init_simple :: SimpleApp where
  "init_simple =
     \<lparr>isRecording = False, audioBlob = None, metrics = None, view = INPUT, loading = False,
      inputText = [], tasks = [], sent = [], alerts = [],
      inputMode = VOICE, userState = None, voiceMetrics = None, playlist = Some (JArr []),
      timers300 = 0, timers1000 = 0\<rparr>"

text \<open>
  The template string \<^verbatim>\<open>clientMetricsStr\<close> of \<^verbatim>\<open>handleAnalyze\<close>. \<open>toFixed\<close> stands for
  \<^verbatim>\<open>Number.prototype.toFixed\<close> (digits first), which is not code of the repository.
\<close>

definition clientMetricsStr :: "(nat \<Rightarrow> jsnum \<Rightarrow> string) \<Rightarrow> Metrics option \<Rightarrow> string" where
  "clientMetricsStr toFixed m =
     (case m of
        Some ms \<Rightarrow> ''Client-side metrics detected: RMS(Volume)='' @ toFixed 3 (rms ms)
                   @ '', ZCR(PitchProxy)='' @ toFixed 3 (zcr ms) @ ''. ''
      | None \<Rightarrow> [])"

text \<open>\<^verbatim>\<open>startRecording\<close>: on a refused microphone the simple variant shows an alert.\<close>

definition startRecording_s :: "bool \<Rightarrow> SimpleApp \<Rightarrow> SimpleApp" where
  "startRecording_s granted s =
     (if granted then s\<lparr>isRecording := True\<rparr>
      else s\<lparr>alerts := alerts s @ [''Could not access microphone. Please allow permissions.'']\<rparr>)"

text \<open>
  \<^verbatim>\<open>handleAnalyze\<close> up to its first \<^verbatim>\<open>await\<close>. In voice mode with a blob that is
  \<^verbatim>\<open>await blobToBase64(audioBlob)\<close>; otherwise the text request is sent at once and the
  handler waits for its response.
\<close>

definition handleAnalyze :: "SimpleApp \<Rightarrow> SimpleApp" where
  "handleAnalyze s =
     (let s1 = s\<lparr>loading := True, timers300 := timers300 s + 1\<rparr> in
      if inputMode s = VOICE \<and> audioBlob s \<noteq> None
      then s1\<lparr>tasks := tasks s1 @ [AwaitBase64 (metrics s)]\<rparr>
      else s1\<lparr>sent := sent s1 @ [AnalyzeText (inputText s)],
               tasks := tasks s1 @ [AwaitAnalysis]\<rparr>)"

text \<open>The \<^verbatim>\<open>catch\<close> block of \<^verbatim>\<open>handleAnalyze\<close>; the handler \<open>i\<close> ends.\<close>

definition handleAnalyze_catch :: "nat \<Rightarrow> SimpleApp \<Rightarrow> SimpleApp" where
  "handleAnalyze_catch i s =
     s\<lparr>loading := False, view := INPUT,
       alerts := alerts s @ [''Analysis failed. Please try again.''],
       tasks := drop_task i (tasks s)\<rparr>"

text \<open>After \<^verbatim>\<open>await blobToBase64(audioBlob)\<close>: the voice request is sent, or the promise rejected.\<close>

definition handleAnalyze_base64 ::
  "(nat \<Rightarrow> jsnum \<Rightarrow> string) \<Rightarrow> nat \<Rightarrow> string option \<Rightarrow> SimpleApp \<Rightarrow> SimpleApp" where
  "handleAnalyze_base64 toFixed i r s =
     (case (tasks s ! i, r) of
        (AwaitBase64 m, Some base64Audio) \<Rightarrow>
          s\<lparr>sent := sent s @ [AnalyzeVoice (clientMetricsStr toFixed m) base64Audio],
            tasks := (tasks s)[i := AwaitAnalysis]\<rparr>
      | _ \<Rightarrow> handleAnalyze_catch i s)"

text \<open>
  After the first \<^verbatim>\<open>await ai.models.generateContent\<close>: the response is parsed, the state
  is built field by field and stored with \<^verbatim>\<open>setUserState\<close>, the voice analysis is stored,
  and the playlist request is sent. Reading a field of \<^verbatim>\<open>null\<close> throws.
\<close>

definition handleAnalyze_analysis :: "nat \<Rightarrow> ai_outcome \<Rightarrow> SimpleApp \<Rightarrow> SimpleApp" where
  "handleAnalyze_analysis i out s =
     (case out of
        Json analysisResult \<Rightarrow>
          if analysisResult = JNull then handleAnalyze_catch i s
          else
            let currentState =
                  \<lparr>energy = get_prop analysisResult ''energy'',
                   reality = get_prop analysisResult ''reality'',
                   temporal = get_prop analysisResult ''temporal'',
                   repetition = get_prop analysisResult ''repetition'',
                   hedonic = get_prop analysisResult ''hedonic'',
                   summary = get_prop analysisResult ''summary''\<rparr>;
                voice_analysis = get_prop analysisResult ''voice_analysis''
            in s\<lparr>userState := Some currentState,
                 voiceMetrics := (if truthy voice_analysis then voice_analysis else None),
                 sent := sent s @ [PlaylistFor currentState HEALTHY_TARGET],
                 tasks := (tasks s)[i := AwaitPlaylist]\<rparr>
      | _ \<Rightarrow> handleAnalyze_catch i s)"

text \<open>
  After the second \<^verbatim>\<open>await ai.models.generateContent\<close>: \<^verbatim>\<open>setPlaylist(playlistData.songs)\<close>
  and the timer of 1000 ms that will show the playlist.
\<close>

definition handleAnalyze_playlist :: "nat \<Rightarrow> ai_outcome \<Rightarrow> SimpleApp \<Rightarrow> SimpleApp" where
  "handleAnalyze_playlist i out s =
     (case out of
        Json playlistData \<Rightarrow>
          if playlistData = JNull then handleAnalyze_catch i s
          else s\<lparr>playlist := get_prop playlistData ''songs'',
                 timers1000 := timers1000 s + 1,
                 tasks := drop_task i (tasks s)\<rparr>
      | _ \<Rightarrow> handleAnalyze_catch i s)"

text \<open>The \<^verbatim>\<open>onClick\<close> of the button "Start Over".\<close>

definition startOver_s :: "SimpleApp \<Rightarrow> SimpleApp" where
  "startOver_s s =
     s\<lparr>view := INPUT, userState := None, inputText := [], audioBlob := None,
       voiceMetrics := None\<rparr>"

text \<open>
  Which events the rendered page allows. The input view is rendered when
  \<^verbatim>\<open>view === "INPUT" && !loading\<close>, the results view when
  \<^verbatim>\<open>view === "PLAYLIST" && userState\<close>; the button "Analyze Text" is
  \<^verbatim>\<open>disabled={!inputText.trim()}\<close>, "Analyze Voice" is rendered when a blob is there and
  no recording runs.
\<close>

definition input_view_s :: "SimpleApp \<Rightarrow> bool" where
  "input_view_s s = (view s = INPUT \<and> \<not> loading s)"

fun enabled_s :: "SimpleApp \<Rightarrow> event \<Rightarrow> bool" where
  "enabled_s s (SetInputMode m) = (input_view_s s \<and> m \<noteq> SLIDERS)"
| "enabled_s s (ChangeText t) = (input_view_s s \<and> inputMode s = TEXT)"
| "enabled_s s (StartRecording g) =
     (input_view_s s \<and> inputMode s = VOICE \<and> \<not> isRecording s \<and> audioBlob s = None)"
| "enabled_s s (StopRecording b d) =
     (input_view_s s \<and> inputMode s = VOICE \<and> isRecording s)"
| "enabled_s s (RecordAgain g) =
     (input_view_s s \<and> inputMode s = VOICE \<and> \<not> isRecording s \<and> audioBlob s \<noteq> None)"
| "enabled_s s Analyze =
     (input_view_s s \<and>
      (if inputMode s = VOICE then \<not> isRecording s \<and> audioBlob s \<noteq> None
       else trim (inputText s) \<noteq> []))"
| "enabled_s s (Base64Settled i r) =
     (i < length (tasks s) \<and> (case tasks s ! i of AwaitBase64 m \<Rightarrow> True | _ \<Rightarrow> False))"
| "enabled_s s (AiSettled i out) =
     (i < length (tasks s) \<and> (tasks s ! i = AwaitAnalysis \<or> tasks s ! i = AwaitPlaylist))"
| "enabled_s s Timer300 = (0 < timers300 s)"
| "enabled_s s Timer1000 = (0 < timers1000 s)"
| "enabled_s s StartOver = (view s = PLAYLIST \<and> userState s \<noteq> None)"
| "enabled_s s _ = False"

text \<open>One event on the simple variant; an event the page does not allow changes nothing.\<close>

definition step_s :: "(nat \<Rightarrow> jsnum \<Rightarrow> string) \<Rightarrow> SimpleApp \<Rightarrow> event \<Rightarrow> SimpleApp" where
  "step_s toFixed s ev =
     (if \<not> enabled_s s ev then s
      else case ev of
        SetInputMode m \<Rightarrow> s\<lparr>inputMode := m\<rparr>
      | ChangeText t \<Rightarrow> s\<lparr>inputText := t\<rparr>
      | StartRecording granted \<Rightarrow> startRecording_s granted s
      | StopRecording b decoded \<Rightarrow> onstop b decoded (stopRecording s)
      | RecordAgain granted \<Rightarrow> startRecording_s granted (s\<lparr>audioBlob := None\<rparr>)
      | Analyze \<Rightarrow> handleAnalyze s
      | Base64Settled i r \<Rightarrow> handleAnalyze_base64 toFixed i r s
      | AiSettled i out \<Rightarrow>
          (if tasks s ! i = AwaitAnalysis then handleAnalyze_analysis i out s
           else handleAnalyze_playlist i out s)
      | Timer300 \<Rightarrow> s\<lparr>view := ANALYZING, timers300 := timers300 s - 1\<rparr>
      | Timer1000 \<Rightarrow> s\<lparr>loading := False, view := PLAYLIST, timers1000 := timers1000 s - 1\<rparr>
      | StartOver \<Rightarrow> startOver_s s
      | _ \<Rightarrow> s)"

definition run_s :: "(nat \<Rightarrow> jsnum \<Rightarrow> string) \<Rightarrow> event list \<Rightarrow> SimpleApp" where
  "run_s toFixed evs = foldl (step_s toFixed) init_simple evs"

subsection \<open>The extended variant (\<^verbatim>\<open>src/index.tsx\<close>)\<close>

text \<open>
  \<open>manualState\<close> starts as \<open>INITIAL_STATE\<close>, is changed by the sliders, and is overwritten
  with \<^verbatim>\<open>aiSuggestion.suggested_state\<close> as parsed when the user accepts a suggestion.
  \<open>aiSuggestion\<close> and \<open>playlistResult\<close> hold the parsed responses; \<open>JNull\<close> is their
  initial \<^verbatim>\<open>null\<close>.
\<close>

record ExtendedApp = Session +
  permissionError :: bool
  activeTab :: Tab
  manualState :: jsval
  aiSuggestion :: json
  playlistResult :: json
  loadingMessage :: string
  selectedGenres :: "string list"
  excludedGenres :: "string list"

definition init_extended :: ExtendedApp where
  "init_extended =
     \<lparr>isRecording = False, audioBlob = None, metrics = None, view = INPUT, loading = False,
      inputText = [], tasks = [], sent = [], alerts = [],
      permissionError = False, activeTab = SLIDERS, manualState = Some INITIAL_STATE,
      aiSuggestion = JNull, playlistResult = JNull, loadingMessage = ''Processing...'',
      selectedGenres = [], excludedGenres = []\<rparr>"

definition clientMetricsStr_x :: "(nat \<Rightarrow> jsnum \<Rightarrow> string) \<Rightarrow> Metrics option \<Rightarrow> string" where
  "clientMetricsStr_x toFixed m =
     (case m of
        Some ms \<Rightarrow> ''Metrics: RMS='' @ toFixed 2 (rms ms) @ '', ZCR='' @ toFixed 2 (zcr ms) @ ''.''
      | None \<Rightarrow> [])"

text \<open>\<^verbatim>\<open>startRecording\<close>: the extended variant sets \<open>permissionError\<close> instead of an alert.\<close>

definition startRecording_x :: "bool \<Rightarrow> ExtendedApp \<Rightarrow> ExtendedApp" where
  "startRecording_x granted s =
     (let s1 = s\<lparr>permissionError := False\<rparr> in
      if granted then s1\<lparr>isRecording := True\<rparr> else s1\<lparr>permissionError := True\<rparr>)"

definition handleSliderChange :: "string \<Rightarrow> real \<Rightarrow> ExtendedApp \<Rightarrow> ExtendedApp" where
  "handleSliderChange axis val s =
     s\<lparr>manualState := Some (JObj (set_prop axis (JNum val) (own_entries (manualState s))))\<rparr>"

text \<open>The two \<^verbatim>\<open>onClick\<close> handlers of \<^verbatim>\<open>GenreSelector\<close>.\<close>

definition toggleGenre :: "string \<Rightarrow> ExtendedApp \<Rightarrow> ExtendedApp" where
  "toggleGenre g s =
     (if g \<in> set (selectedGenres s)
      then s\<lparr>selectedGenres := filter (\<lambda>x. x \<noteq> g) (selectedGenres s)\<rparr>
      else s\<lparr>selectedGenres := selectedGenres s @ [g],
             excludedGenres := filter (\<lambda>x. x \<noteq> g) (excludedGenres s)\<rparr>)"

definition toggleExcluded :: "string \<Rightarrow> ExtendedApp \<Rightarrow> ExtendedApp" where
  "toggleExcluded g s =
     (if g \<in> set (excludedGenres s)
      then s\<lparr>excludedGenres := filter (\<lambda>x. x \<noteq> g) (excludedGenres s)\<rparr>
      else s\<lparr>excludedGenres := excludedGenres s @ [g],
             selectedGenres := filter (\<lambda>x. x \<noteq> g) (selectedGenres s)\<rparr>)"

text \<open>\<^verbatim>\<open>const canProceed = selectedGenres.length > 0\<close>.\<close>

definition canProceed :: "ExtendedApp \<Rightarrow> bool" where
  "canProceed s = (0 < length (selectedGenres s))"

text \<open>\<^verbatim>\<open>handleAnalyzeContext\<close> up to its first \<^verbatim>\<open>await\<close>.\<close>

definition handleAnalyzeContext :: "ExtendedApp \<Rightarrow> ExtendedApp" where
  "handleAnalyzeContext s =
     (let s1 = s\<lparr>loading := True, loadingMessage := ''Analyzing your state...'',
                 view := ANALYZING\<rparr> in
      if activeTab s = VOICE \<and> audioBlob s \<noteq> None
      then s1\<lparr>tasks := tasks s1 @ [AwaitBase64Context (metrics s) (manualState s)]\<rparr>
      else s1\<lparr>sent := sent s1 @ [ContextText (manualState s) (inputText s)],
               tasks := tasks s1 @ [AwaitAnalysis]\<rparr>)"

definition handleAnalyzeContext_catch :: "nat \<Rightarrow> ExtendedApp \<Rightarrow> ExtendedApp" where
  "handleAnalyzeContext_catch i s =
     s\<lparr>loading := False, view := INPUT,
       alerts := alerts s @ [''Hmm, something went wrong with the analysis. Please try again.''],
       tasks := drop_task i (tasks s)\<rparr>"

definition handleAnalyzeContext_base64 ::
  "(nat \<Rightarrow> jsnum \<Rightarrow> string) \<Rightarrow> nat \<Rightarrow> string option \<Rightarrow> ExtendedApp \<Rightarrow> ExtendedApp" where
  "handleAnalyzeContext_base64 toFixed i r s =
     (case (tasks s ! i, r) of
        (AwaitBase64Context m st, Some base64Audio) \<Rightarrow>
          s\<lparr>sent := sent s @ [ContextVoice st (clientMetricsStr_x toFixed m) base64Audio],
            tasks := (tasks s)[i := AwaitAnalysis]\<rparr>
      | _ \<Rightarrow> handleAnalyzeContext_catch i s)"

text \<open>
  After \<^verbatim>\<open>await ai.models.generateContent\<close> in \<^verbatim>\<open>handleAnalyzeContext\<close>:
  \<^verbatim>\<open>if (!text) throw ...\<close>, then \<^verbatim>\<open>setAiSuggestion(JSON.parse(text))\<close> with no read of a
  field, so every parsed value is stored.
\<close>

definition handleAnalyzeContext_analysis :: "nat \<Rightarrow> ai_outcome \<Rightarrow> ExtendedApp \<Rightarrow> ExtendedApp" where
  "handleAnalyzeContext_analysis i out s =
     (case out of
        Json result \<Rightarrow>
          s\<lparr>aiSuggestion := result, loading := False, view := CONFIRMATION,
            tasks := drop_task i (tasks s)\<rparr>
      | _ \<Rightarrow> handleAnalyzeContext_catch i s)"

text \<open>\<^verbatim>\<open>generatePlaylist(finalState)\<close> up to its \<^verbatim>\<open>await\<close>: the request is sent at once.\<close>

definition generatePlaylist :: "jsval \<Rightarrow> ExtendedApp \<Rightarrow> ExtendedApp" where
  "generatePlaylist finalState s =
     s\<lparr>loading := True, loadingMessage := ''Curating your therapeutic journey...'',
       view := ANALYZING,
       sent := sent s @ [PlaylistJourney finalState HEALTHY_TARGET (selectedGenres s) (excludedGenres s)],
       tasks := tasks s @ [AwaitPlaylist]\<rparr>"

definition generatePlaylist_catch :: "nat \<Rightarrow> ExtendedApp \<Rightarrow> ExtendedApp" where
  "generatePlaylist_catch i s =
     s\<lparr>loading := False, view := INPUT,
       alerts := alerts s @ [''Hmm, something went wrong generating the playlist. Please try again.''],
       tasks := drop_task i (tasks s)\<rparr>"

definition generatePlaylist_response :: "nat \<Rightarrow> ai_outcome \<Rightarrow> ExtendedApp \<Rightarrow> ExtendedApp" where
  "generatePlaylist_response i out s =
     (case out of
        Json data \<Rightarrow>
          s\<lparr>playlistResult := data, loading := False, view := PLAYLIST,
            tasks := drop_task i (tasks s)\<rparr>
      | _ \<Rightarrow> generatePlaylist_catch i s)"

text \<open>The two buttons of the confirmation view, and "Start Over".\<close>

definition acceptSuggestion :: "ExtendedApp \<Rightarrow> ExtendedApp" where
  "acceptSuggestion s =
     (let suggested_state = get_prop (aiSuggestion s) ''suggested_state'' in
      generatePlaylist suggested_state (s\<lparr>manualState := suggested_state\<rparr>))"

definition keepSettings :: "ExtendedApp \<Rightarrow> ExtendedApp" where
  "keepSettings s = generatePlaylist (manualState s) s"

definition startOver_x :: "ExtendedApp \<Rightarrow> ExtendedApp" where
  "startOver_x s =
     s\<lparr>view := INPUT, inputText := [], audioBlob := None, aiSuggestion := JNull,
       selectedGenres := [], excludedGenres := [], playlistResult := JNull\<rparr>"

text \<open>
  Which events the rendered page allows. The input view is rendered when
  \<^verbatim>\<open>view === "INPUT"\<close>, the confirmation view when
  \<^verbatim>\<open>view === "CONFIRMATION" && aiSuggestion\<close>, the results view when
  \<^verbatim>\<open>view === "PLAYLIST" && playlistResult\<close>. "Find Music for This Mood" is
  \<^verbatim>\<open>disabled={!canProceed}\<close>; "Check with AI" is \<^verbatim>\<open>disabled={!canProceed}\<close> on the voice
  tab and \<^verbatim>\<open>disabled={!inputText.trim() || !canProceed}\<close> on the text tab.
\<close>

fun enabled_x :: "ExtendedApp \<Rightarrow> event \<Rightarrow> bool" where
  "enabled_x s (SetActiveTab t) = (view s = INPUT)"
| "enabled_x s (SliderChange axis val) =
     (view s = INPUT \<and> activeTab s = SLIDERS \<and> axis \<in> set AXES)"
| "enabled_x s (ToggleGenre g) = (view s = INPUT \<and> g \<in> set GENRE_IDS)"
| "enabled_x s (ToggleExcluded g) = (view s = INPUT \<and> g \<in> set GENRE_IDS)"
| "enabled_x s (ChangeText t) = (view s = INPUT \<and> activeTab s = TEXT)"
| "enabled_x s (StartRecording g) =
     (view s = INPUT \<and> activeTab s = VOICE \<and> \<not> isRecording s \<and> audioBlob s = None)"
| "enabled_x s (StopRecording b d) =
     (view s = INPUT \<and> activeTab s = VOICE \<and> isRecording s)"
| "enabled_x s (RecordAgain g) =
     (view s = INPUT \<and> activeTab s = VOICE \<and> \<not> isRecording s \<and> audioBlob s \<noteq> None)"
| "enabled_x s CheckWithAI =
     (view s = INPUT \<and>
      (if activeTab s = VOICE then \<not> isRecording s \<and> audioBlob s \<noteq> None \<and> canProceed s
       else activeTab s = TEXT \<and> trim (inputText s) \<noteq> [] \<and> canProceed s))"
| "enabled_x s FindMusic = (view s = INPUT \<and> activeTab s = SLIDERS \<and> canProceed s)"
| "enabled_x s AcceptSuggestion = (view s = CONFIRMATION \<and> truthy_json (aiSuggestion s))"
| "enabled_x s KeepSettings = (view s = CONFIRMATION \<and> truthy_json (aiSuggestion s))"
| "enabled_x s (Base64Settled i r) =
     (i < length (tasks s) \<and> (case tasks s ! i of AwaitBase64Context m st \<Rightarrow> True | _ \<Rightarrow> False))"
| "enabled_x s (AiSettled i out) =
     (i < length (tasks s) \<and> (tasks s ! i = AwaitAnalysis \<or> tasks s ! i = AwaitPlaylist))"
| "enabled_x s StartOver = (view s = PLAYLIST \<and> truthy_json (playlistResult s))"
| "enabled_x s _ = False"

text \<open>One event on the extended variant.\<close>

definition step_x :: "(nat \<Rightarrow> jsnum \<Rightarrow> string) \<Rightarrow> ExtendedApp \<Rightarrow> event \<Rightarrow> ExtendedApp" where
  "step_x toFixed s ev =
     (if \<not> enabled_x s ev then s
      else case ev of
        SetActiveTab t \<Rightarrow> s\<lparr>activeTab := t\<rparr>
      | SliderChange axis val \<Rightarrow> handleSliderChange axis val s
      | ToggleGenre g \<Rightarrow> toggleGenre g s
      | ToggleExcluded g \<Rightarrow> toggleExcluded g s
      | ChangeText t \<Rightarrow> s\<lparr>inputText := t\<rparr>
      | StartRecording granted \<Rightarrow> startRecording_x granted s
      | StopRecording b decoded \<Rightarrow> onstop b decoded (stopRecording s)
      | RecordAgain granted \<Rightarrow> startRecording_x granted (s\<lparr>audioBlob := None\<rparr>)
      | CheckWithAI \<Rightarrow> handleAnalyzeContext s
      | FindMusic \<Rightarrow> generatePlaylist (manualState s) s
      | AcceptSuggestion \<Rightarrow> acceptSuggestion s
      | KeepSettings \<Rightarrow> keepSettings s
      | Base64Settled i r \<Rightarrow> handleAnalyzeContext_base64 toFixed i r s
      | AiSettled i out \<Rightarrow>
          (if tasks s ! i = AwaitAnalysis then handleAnalyzeContext_analysis i out s
           else generatePlaylist_response i out s)
      | StartOver \<Rightarrow> startOver_x s
      | _ \<Rightarrow> s)"

definition run_x :: "(nat \<Rightarrow> jsnum \<Rightarrow> string) \<Rightarrow> event list \<Rightarrow> ExtendedApp" where
  "run_x toFixed evs = foldl (step_x toFixed) init_extended evs"

subsection \<open>Requests in flight, and the invariants of the two variants\<close>

text \<open>
  A request is in flight while the handler that sent it waits for the response. The two
  invariants say that at most one handler is suspended at any time, and that the page
  shows no control that could start another one meanwhile: the simple variant keeps
  \<open>loading\<close> set (also while the timer of 1000 ms is pending), the extended variant
  keeps the view at \<open>ANALYZING\<close>.
\<close>

definition in_flight :: "'a Session_scheme \<Rightarrow> nat" where
  "in_flight s = length (filter (\<lambda>t. t = AwaitAnalysis \<or> t = AwaitPlaylist) (tasks s))"

definition inv_s :: "SimpleApp \<Rightarrow> bool" where
  "inv_s s = (length (tasks s) + timers1000 s \<le> 1 \<and> ((tasks s \<noteq> [] \<or> 0 < timers1000 s) \<longrightarrow> loading s))"

definition inv_x :: "ExtendedApp \<Rightarrow> bool" where
  "inv_x s = (length (tasks s) \<le> 1 \<and> (tasks s \<noteq> [] \<longrightarrow> view s = ANALYZING))"

text \<open>
  The responses of the AI service that a run has delivered to a waiting handler: the
  events \<open>AiSettled\<close> that the state allowed, counted along the run from a state.
\<close>

fun is_response :: "event \<Rightarrow> bool" where
  "is_response (AiSettled i out) = True"
| "is_response _ = False"

fun responses_s :: "(nat \<Rightarrow> jsnum \<Rightarrow> string) \<Rightarrow> SimpleApp \<Rightarrow> event list \<Rightarrow> nat" where
  "responses_s toFixed s [] = 0"
| "responses_s toFixed s (ev # evs) =
     (if is_response ev \<and> enabled_s s ev then 1 else 0)
       + responses_s toFixed (step_s toFixed s ev) evs"

fun responses_x :: "(nat \<Rightarrow> jsnum \<Rightarrow> string) \<Rightarrow> ExtendedApp \<Rightarrow> event list \<Rightarrow> nat" where
  "responses_x toFixed s [] = 0"
| "responses_x toFixed s (ev # evs) =
     (if is_response ev \<and> enabled_x s ev then 1 else 0)
       + responses_x toFixed (step_x toFixed s ev) evs"

subsection \<open>The loop computes the sum of squares and the number of sign changes\<close>

lemma crossing_iff_sign: "crossing data i = (nonneg (data ! i) \<noteq> nonneg (data ! (i - 1)))"
  by (auto simp: crossing_def nonneg_def)

lemma analyze_loop_fst:
  "fst (analyze_loop data i s z) = s + (\<Sum>k = i..<length data. data ! k * data ! k)"
proof (induction data i s z rule: analyze_loop.induct)
  case (1 data i s z)
  show ?case
  proof (cases "i < length data")
    case True
    then show ?thesis
      using "1.IH" [OF True]
      by (subst analyze_loop.simps) (simp add: sum.atLeast_Suc_lessThan)
  next
    case False
    then show ?thesis
      by (subst analyze_loop.simps) simp
  qed
qed

lemma analyze_loop_snd:
  "snd (analyze_loop data i s z) =
     z + card {k. i \<le> k \<and> 1 \<le> k \<and> k < length data \<and> crossing data k}"
proof (induction data i s z rule: analyze_loop.induct)
  case (1 data i s z)
  show ?case
  proof (cases "i < length data")
    case True
    let ?A = "{k. Suc i \<le> k \<and> 1 \<le> k \<and> k < length data \<and> crossing data k}"
    let ?B = "{k. i \<le> k \<and> 1 \<le> k \<and> k < length data \<and> crossing data k}"
    have fin: "finite ?A" by simp
    have split: "?B = (if 0 < i \<and> crossing data i then insert i ?A else ?A)"
      using True by (auto simp: Suc_le_eq le_less intro: Suc_leI)
    have notin: "i \<notin> ?A" by simp
    have "card ?B = (if 0 < i \<and> crossing data i then 1 else 0) + card ?A"
    proof (cases "0 < i \<and> crossing data i")
      case True
      then have "?B = insert i ?A" using split by presburger
      then show ?thesis using True fin notin by (simp only: card_insert_disjoint) simp
    next
      case False
      then have "?B = ?A" using split by presburger
      then show ?thesis using False by (simp only:) simp
    qed
    then show ?thesis
      using "1.IH" [OF True] True
      by (subst analyze_loop.simps) simp
  next
    case False
    then have "{k. i \<le> k \<and> 1 \<le> k \<and> k < length data \<and> crossing data k} = {}"
      by auto
    with False show ?thesis
      by (subst analyze_loop.simps) simp
  qed
qed

lemma zeroCrossings_eq: "snd (analyze_loop data 0 0 0) = card (sign_changes data)"
  by (simp add: analyze_loop_snd sign_changes_def crossing_iff_sign)

lemma sumSquares_eq: "fst (analyze_loop data 0 0 0) = (\<Sum>k < length data. data ! k * data ! k)"
  by (simp add: analyze_loop_fst atLeast0LessThan)

lemma compute_metrics_nonempty:
  "data \<noteq> [] \<Longrightarrow>
     compute_metrics data =
       \<lparr>rms = Num (sqrt ((\<Sum>k < length data. data ! k * data ! k) / real (length data))),
        zcr = Num (real (card (sign_changes data)) / real (length data))\<rparr>"
  using zeroCrossings_eq [of data] sumSquares_eq [of data]
  by (simp add: compute_metrics_def case_prod_beta)

lemma sign_changes_subset: "sign_changes data \<subseteq> {1..<length data}"
  by (auto simp: sign_changes_def)

lemma card_sign_changes_le: "card (sign_changes data) \<le> length data - 1"
  using card_mono [OF _ sign_changes_subset, of data] by simp

lemma sign_changes_constant:
  assumes "(\<forall>x \<in> set data. 0 \<le> x) \<or> (\<forall>x \<in> set data. x < 0)"
  shows "sign_changes data = {}"
proof -
  have "nonneg (data ! i) = nonneg (data ! (i - 1))" if i: "i < length data" for i
  proof -
    from i have j: "i - 1 < length data" by simp
    from assms show ?thesis
    proof
      assume "\<forall>x \<in> set data. 0 \<le> x"
      then have "0 \<le> data ! i" "0 \<le> data ! (i - 1)"
        using nth_mem [OF i] nth_mem [OF j] by blast+
      then show ?thesis by (simp add: nonneg_def)
    next
      assume "\<forall>x \<in> set data. x < 0"
      then have "data ! i < 0" "data ! (i - 1) < 0"
        using nth_mem [OF i] nth_mem [OF j] by blast+
      then show ?thesis by (simp add: nonneg_def)
    qed
  qed
  then show ?thesis unfolding sign_changes_def by blast
qed

lemma sign_changes_alternating:
  assumes "\<forall>i. 1 \<le> i \<and> i < length data \<longrightarrow> nonneg (data ! i) \<noteq> nonneg (data ! (i - 1))"
  shows "sign_changes data = {1..<length data}"
proof (rule set_eqI)
  fix i
  show "(i \<in> sign_changes data) = (i \<in> {1..<length data})"
    using assms [rule_format, of i] unfolding sign_changes_def by (simp only: mem_Collect_eq atLeastLessThan_iff) blast
qed


subsection \<open>Claims about the audio features\<close>

text \<open>
  Claim C2. For a sample array of length \<open>N > 0\<close>, the computed \<open>zcr\<close> is the number of
  indices \<open>i\<close> in \<open>[1, N)\<close> at which the sign of \<open>data[i]\<close> differs from the sign of
  \<open>data[i-1]\<close>, divided by \<open>N\<close>, where a sample of exactly 0 is non-negative: the
  condition of the loop counts a pair 0, negative and a pair negative, 0, and does not
  count a pair 0, 0.
\<close>

theorem zcr_formula:
  assumes "0 < length data"
  shows "zcr (compute_metrics data) =
           Num (real (card {i. 1 \<le> i \<and> i < length data \<and> nonneg (data ! i) \<noteq> nonneg (data ! (i - 1))})
                / real (length data))
         \<and> nonneg 0
         \<and> (\<forall>i. 0 < i \<and> i < length data \<and> data ! (i - 1) = 0 \<and> data ! i < 0 \<longrightarrow> crossing data i)
         \<and> (\<forall>i. 0 < i \<and> i < length data \<and> data ! (i - 1) < 0 \<and> data ! i = 0 \<longrightarrow> crossing data i)
         \<and> (\<forall>i. 0 < i \<and> i < length data \<and> data ! (i - 1) = 0 \<and> data ! i = 0 \<longrightarrow> \<not> crossing data i)"
proof -
  from assms have ne: "data \<noteq> []" by auto
  have "zcr (compute_metrics data) = Num (real (card (sign_changes data)) / real (length data))"
    by (simp add: compute_metrics_nonempty [OF ne])
  then show ?thesis
    by (simp add: sign_changes_def crossing_def nonneg_def)
qed

text \<open>The theorem at the array 0, -1, 0, 0, 1: two sign changes (0 to -1, -1 to 0) in 5 samples.\<close>

theorem zcr_formula_witness:
  "0 < length [0, -1, 0, 0, 1 :: real]
   \<and> zcr (compute_metrics [0, -1, 0, 0, 1]) = Num (2 / 5)
   \<and> card {i. 1 \<le> i \<and> i < length [0, -1, 0, 0, 1 :: real]
              \<and> nonneg ([0, -1, 0, 0, 1] ! i) \<noteq> nonneg ([0, -1, 0, 0, 1] ! (i - 1))} = 2"
proof -
  define S where "S = {i. 1 \<le> i \<and> i < length [0, -1, 0, 0, 1 :: real]
              \<and> nonneg ([0, -1, 0, 0, 1] ! i) \<noteq> nonneg ([0, -1, 0, 0, 1] ! (i - 1))}"
  have ev: "zcr (compute_metrics [0, -1, 0, 0, 1]) = Num (2 / 5)"
    by (simp add: compute_metrics_def analyze_loop.simps crossing_def)
  have h: "0 < length [0, -1, 0, 0, 1 :: real]" by simp
  have "zcr (compute_metrics [0, -1, 0, 0, 1]) = Num (real (card S) / real (length [0, -1, 0, 0, 1 :: real]))"
    unfolding S_def using zcr_formula [OF h] by (rule conjunct1)
  with ev have "card S = 2" by simp
  with h ev show ?thesis unfolding S_def by (intro conjI)
qed

text \<open>
  Claim C3. For a sample array of length \<open>N > 0\<close> with every value in \<open>[-1, 1]\<close>, the
  computed \<open>rms\<close> is the square root of the sum of the squares divided by \<open>N\<close>; it lies
  in \<open>[0, 1]\<close>, and it is 0 exactly when every sample is 0.
\<close>

theorem rms_formula:
  assumes "0 < length data" and "\<forall>x \<in> set data. - 1 \<le> x \<and> x \<le> 1"
  shows "rms (compute_metrics data) = Num (sqrt ((\<Sum>i < length data. (data ! i)\<^sup>2) / real (length data)))
         \<and> (\<exists>r. rms (compute_metrics data) = Num r \<and> 0 \<le> r \<and> r \<le> 1
                \<and> (r = 0 \<longleftrightarrow> (\<forall>x \<in> set data. x = 0)))"
proof -
  from assms have ne: "data \<noteq> []" by auto
  let ?S = "\<Sum>i < length data. (data ! i)\<^sup>2"
  let ?N = "real (length data)"
  have r: "rms (compute_metrics data) = Num (sqrt (?S / ?N))"
    by (simp add: compute_metrics_nonempty [OF ne] power2_eq_square)
  have N: "0 < ?N" using assms(1) by simp
  have sq: "(data ! i)\<^sup>2 \<le> 1" if "i < length data" for i
  proof -
    have "\<bar>data ! i\<bar> \<le> 1" using assms(2) that nth_mem [OF that] by (auto simp: abs_le_iff)
    then show ?thesis by (simp add: abs_square_le_1)
  qed
  have "?S \<le> (\<Sum>i < length data. 1)"
    by (rule sum_mono) (simp add: sq)
  then have le: "?S \<le> ?N" by simp
  have ge: "0 \<le> ?S" by (simp add: sum_nonneg)
  have b1: "0 \<le> sqrt (?S / ?N)" using ge N by simp
  have b2: "sqrt (?S / ?N) \<le> 1" using le N by simp
  have "(?S = 0) = (\<forall>i \<in> {..<length data}. (data ! i)\<^sup>2 = 0)"
    by (rule sum_nonneg_eq_0_iff) simp_all
  also have "\<dots> = (\<forall>x \<in> set data. x = 0)"
    by (auto simp: all_set_conv_all_nth)
  finally have z: "(?S = 0) = (\<forall>x \<in> set data. x = 0)" .
  have b3: "(sqrt (?S / ?N) = 0) = (\<forall>x \<in> set data. x = 0)"
    using z N by simp
  from r b1 b2 b3 show ?thesis by blast
qed

text \<open>The theorem at the array 1, -1: the root mean square is 1.\<close>

theorem rms_formula_witness:
  "0 < length [1, - 1 :: real] \<and> (- 1 \<le> (1::real) \<and> (1::real) \<le> 1)
   \<and> rms (compute_metrics [1, - 1]) = Num 1"
proof -
  have h1: "0 < length [1, - 1 :: real]" by simp
  have h2: "\<forall>x \<in> set [1, - 1 :: real]. - 1 \<le> x \<and> x \<le> 1" by simp
  from rms_formula [OF h1 h2] show ?thesis
    by (simp add: lessThan_Suc numeral_2_eq_2)
qed

text \<open>
  Claim C7. For a sample array of length \<open>N > 0\<close>: \<open>zcr\<close> lies in \<open>[0, 1)\<close>; an array of
  constant sign (all samples \<open>\<ge> 0\<close>, or all \<open>< 0\<close>) has \<open>zcr = 0\<close>; an array whose
  consecutive samples all differ in sign (0 counted as non-negative) has
  \<open>zcr = (N - 1) / N\<close>.
\<close>

theorem zcr_range:
  assumes "0 < length data"
  shows "(\<exists>z. zcr (compute_metrics data) = Num z \<and> 0 \<le> z \<and> z < 1)
         \<and> ((\<forall>x \<in> set data. 0 \<le> x) \<or> (\<forall>x \<in> set data. x < 0) \<longrightarrow> zcr (compute_metrics data) = Num 0)
         \<and> ((\<forall>i. 1 \<le> i \<and> i < length data \<longrightarrow> nonneg (data ! i) \<noteq> nonneg (data ! (i - 1)))
              \<longrightarrow> zcr (compute_metrics data) = Num (real (length data - 1) / real (length data)))"
proof -
  from assms have ne: "data \<noteq> []" by auto
  have z: "zcr (compute_metrics data) = Num (real (card (sign_changes data)) / real (length data))"
    by (simp add: compute_metrics_nonempty [OF ne])
  have "card (sign_changes data) < length data"
    using card_sign_changes_le [of data] assms by linarith
  then have lt: "real (card (sign_changes data)) / real (length data) < 1"
    using assms by simp
  have range: "\<exists>z. zcr (compute_metrics data) = Num z \<and> 0 \<le> z \<and> z < 1"
    using z lt by simp
  have const: "zcr (compute_metrics data) = Num 0"
    if "(\<forall>x \<in> set data. 0 \<le> x) \<or> (\<forall>x \<in> set data. x < 0)"
    using z sign_changes_constant [OF that] by simp
  have alt: "zcr (compute_metrics data) = Num (real (length data - 1) / real (length data))"
    if "\<forall>i. 1 \<le> i \<and> i < length data \<longrightarrow> nonneg (data ! i) \<noteq> nonneg (data ! (i - 1))"
    using z sign_changes_alternating [OF that] by simp
  from range const alt show ?thesis by (intro conjI impI)
qed

text \<open>The theorem at the alternating array 1, -1, 0 and at the negative array -1, -2.\<close>

theorem zcr_range_witness:
  "0 < length [1, - 1, 0 :: real]
   \<and> zcr (compute_metrics [1, - 1, 0]) = Num (2 / 3)
   \<and> zcr (compute_metrics [- 1, - 2 :: real]) = Num 0"
proof -
  have h1: "0 < length [1, - 1, 0 :: real]" by simp
  have h2: "0 < length [- 1, - 2 :: real]" by simp
  have alt: "\<forall>i. 1 \<le> i \<and> i < length [1, - 1, 0 :: real] \<longrightarrow>
              nonneg ([1, - 1, 0] ! i) \<noteq> nonneg ([1, - 1, 0 :: real] ! (i - 1))"
  proof (intro allI impI)
    fix i :: nat assume "1 \<le> i \<and> i < length [1, - 1, 0 :: real]"
    then have "i = 1 \<or> i = 2" by auto
    then show "nonneg ([1, - 1, 0] ! i) \<noteq> nonneg ([1, - 1, 0 :: real] ! (i - 1))"
      by (auto simp: nonneg_def)
  qed
  have neg: "(\<forall>x \<in> set [- 1, - 2 :: real]. 0 \<le> x) \<or> (\<forall>x \<in> set [- 1, - 2 :: real]. x < 0)" by simp
  have a: "zcr (compute_metrics [1, - 1, 0]) = Num (real (length [1, - 1, 0 :: real] - 1) / real (length [1, - 1, 0 :: real]))"
    using zcr_range [OF h1] alt by blast
  have b: "zcr (compute_metrics [- 1, - 2 :: real]) = Num 0"
    using zcr_range [OF h2] neg by blast
  from a have "zcr (compute_metrics [1, - 1, 0]) = Num (2 / 3)" by simp
  with h1 b show ?thesis by (intro conjI)
qed

subsection \<open>Lemmas about the two state machines\<close>

lemma trim_empty_iff: "(trim t = []) = (\<forall>c \<in> set t. is_space c)"
proof -
  have "(trim t = []) = (\<forall>c \<in> set (dropWhile is_space t). is_space c)"
    by (simp add: trim_def dropWhile_eq_Nil_conv)
  also have "\<dots> = (\<forall>c \<in> set t. is_space c)"
  proof
    assume a: "\<forall>c \<in> set (dropWhile is_space t). is_space c"
    have "set t = set (takeWhile is_space t) \<union> set (dropWhile is_space t)"
      by (metis set_append takeWhile_dropWhile_id)
    with a show "\<forall>c \<in> set t. is_space c"
      by (auto dest: set_takeWhileD)
  next
    assume "\<forall>c \<in> set t. is_space c"
    then show "\<forall>c \<in> set (dropWhile is_space t). is_space c"
      by (auto dest: set_dropWhileD)
  qed
  finally show ?thesis .
qed

lemmas simple_handlers =
  handleAnalyze_def handleAnalyze_catch_def handleAnalyze_base64_def handleAnalyze_analysis_def
  handleAnalyze_playlist_def startOver_s_def startRecording_s_def onstop_def stopRecording_def
  analyzeRecordedAudio_def drop_task_def input_view_s_def

lemma single_task: "length ts + n \<le> 1 \<Longrightarrow> i < length ts \<Longrightarrow> i = 0 \<and> n = 0 \<and> (\<exists>t. ts = [t])"
  by (cases ts) auto

lemma inv_s_step: "inv_s s \<Longrightarrow> inv_s (step_s toFixed s ev)"
proof (cases "enabled_s s ev")
  case False
  then show "inv_s s \<Longrightarrow> ?thesis" by (simp add: step_s_def)
next
  case en: True
  assume inv: "inv_s s"
  show ?thesis
  proof (cases ev)
    case Analyze
    with en inv show ?thesis
      by (auto simp: step_s_def inv_s_def simple_handlers Let_def)
  next
    case (Base64Settled i r)
    with en have "i < length (tasks s)" by simp
    with inv obtain t where "i = 0" "timers1000 s = 0" "tasks s = [t]"
      unfolding inv_s_def using single_task by blast
    with en inv Base64Settled show ?thesis
      by (auto simp: step_s_def inv_s_def simple_handlers split: task.splits option.splits)
  next
    case (AiSettled i out)
    with en have "i < length (tasks s)" by simp
    with inv obtain t where "i = 0" "timers1000 s = 0" "tasks s = [t]"
      unfolding inv_s_def using single_task by blast
    with en inv AiSettled show ?thesis
      by (auto simp: step_s_def inv_s_def simple_handlers Let_def split: ai_outcome.splits)
  next
    case Timer1000
    with en inv have "tasks s = []" "timers1000 s = 1"
      by (cases "tasks s"; simp add: inv_s_def)+
    with en inv Timer1000 show ?thesis
      by (simp add: step_s_def inv_s_def)
  qed (use en inv in \<open>auto simp: step_s_def inv_s_def simple_handlers split: option.splits\<close>)
qed

lemma inv_s_foldl: "inv_s s \<Longrightarrow> inv_s (foldl (step_s toFixed) s evs)"
  by (induction evs arbitrary: s) (simp_all add: inv_s_step)

lemma inv_s_run: "inv_s (run_s toFixed evs)"
  unfolding run_s_def by (rule inv_s_foldl) (simp add: inv_s_def init_simple_def)

lemmas extended_handlers =
  handleAnalyzeContext_def handleAnalyzeContext_catch_def handleAnalyzeContext_base64_def
  handleAnalyzeContext_analysis_def generatePlaylist_def generatePlaylist_catch_def
  generatePlaylist_response_def acceptSuggestion_def keepSettings_def startOver_x_def
  startRecording_x_def handleSliderChange_def toggleGenre_def toggleExcluded_def
  onstop_def stopRecording_def analyzeRecordedAudio_def drop_task_def

lemma single_task': "length ts \<le> 1 \<Longrightarrow> i < length ts \<Longrightarrow> i = 0 \<and> (\<exists>t. ts = [t])"
  by (cases ts) auto

lemma inv_x_step: "inv_x s \<Longrightarrow> inv_x (step_x toFixed s ev)"
proof (cases "enabled_x s ev")
  case False
  then show "inv_x s \<Longrightarrow> ?thesis" by (simp add: step_x_def)
next
  case en: True
  assume inv: "inv_x s"
  show ?thesis
  proof (cases ev)
    case (Base64Settled i r)
    with en have "i < length (tasks s)" by simp
    with inv obtain t where "i = 0" "tasks s = [t]"
      unfolding inv_x_def using single_task' by blast
    with en inv Base64Settled show ?thesis
      by (auto simp: step_x_def inv_x_def extended_handlers split: task.splits option.splits)
  next
    case (AiSettled i out)
    with en have "i < length (tasks s)" by simp
    with inv obtain t where "i = 0" "tasks s = [t]"
      unfolding inv_x_def using single_task' by blast
    with en inv AiSettled show ?thesis
      by (auto simp: step_x_def inv_x_def extended_handlers split: ai_outcome.splits)
  qed (use en inv in \<open>auto simp: step_x_def inv_x_def extended_handlers Let_def split: option.splits\<close>)
qed

lemma inv_x_foldl: "inv_x s \<Longrightarrow> inv_x (foldl (step_x toFixed) s evs)"
  by (induction evs arbitrary: s) (simp_all add: inv_x_step)

lemma inv_x_run: "inv_x (run_x toFixed evs)"
  unfolding run_x_def by (rule inv_x_foldl) (simp add: inv_x_def init_extended_def)

lemma in_flight_le_tasks: "in_flight s \<le> length (tasks s)"
  by (simp add: in_flight_def)

lemma input_no_task_x: "inv_x s \<Longrightarrow> view s \<noteq> ANALYZING \<Longrightarrow> tasks s = []"
  by (auto simp: inv_x_def)

lemmas run_x_eval =
  run_x_def step_x_def init_extended_def extended_handlers canProceed_def GENRE_IDS_def AXES_def
  trim_def is_space_def INITIAL_STATE_def

lemmas run_s_eval =
  run_s_def step_s_def init_simple_def simple_handlers trim_def is_space_def

lemma sends_s:
  assumes "sent (step_s toFixed s ev) = sent s @ [r]" and "is_playlist_request r"
  shows "\<exists>i j c. ev = AiSettled i (Json j) \<and> tasks s ! i = AwaitAnalysis
            \<and> userState (step_s toFixed s ev) = Some c \<and> r = PlaylistFor c HEALTHY_TARGET"
proof (cases "enabled_s s ev")
  case False
  with assms show ?thesis by (simp add: step_s_def)
next
  case en: True
  show ?thesis
  proof (cases ev)
    case (AiSettled i out)
    show ?thesis
    proof (cases "tasks s ! i = AwaitAnalysis")
      case True
      with en AiSettled assms show ?thesis
        by (cases out) (auto simp: step_s_def handleAnalyze_analysis_def handleAnalyze_catch_def Let_def split: if_splits)
    next
      case False
      with en AiSettled assms show ?thesis
        by (cases out) (auto simp: step_s_def handleAnalyze_playlist_def handleAnalyze_catch_def split: if_splits)
    qed
  next
    case (Base64Settled i r')
    with en assms show ?thesis
      by (auto simp: step_s_def handleAnalyze_base64_def handleAnalyze_catch_def split: task.splits option.splits)
  qed (use en assms in \<open>auto simp: step_s_def simple_handlers Let_def split: option.splits if_splits\<close>)
qed

lemma sends_x:
  assumes "sent (step_x toFixed x ev) = sent x @ [r]" and "is_playlist_request r"
  shows "(ev = FindMusic \<or> ev = AcceptSuggestion \<or> ev = KeepSettings)
         \<and> r = PlaylistJourney (manualState (step_x toFixed x ev)) HEALTHY_TARGET
                 (selectedGenres x) (excludedGenres x)"
proof (cases "enabled_x x ev")
  case False
  with assms show ?thesis by (simp add: step_x_def)
next
  case en: True
  show ?thesis
  proof (cases ev)
    case (AiSettled i out)
    with en assms show ?thesis
      by (cases out) (auto simp: step_x_def handleAnalyzeContext_analysis_def handleAnalyzeContext_catch_def
            generatePlaylist_response_def generatePlaylist_catch_def split: if_splits)
  next
    case (Base64Settled i r')
    with en assms show ?thesis
      by (auto simp: step_x_def handleAnalyzeContext_base64_def handleAnalyzeContext_catch_def split: task.splits option.splits)
  qed (use en assms in \<open>auto simp: step_x_def extended_handlers Let_def split: option.splits if_splits\<close>)
qed

lemma append_one_s:
  "sent (step_s toFixed s ev) = sent s \<or> (\<exists>r. sent (step_s toFixed s ev) = sent s @ [r])"
proof (cases "enabled_s s ev")
  case False
  then show ?thesis by (simp add: step_s_def)
next
  case en: True
  show ?thesis
  proof (cases ev)
    case (AiSettled i out)
    with en show ?thesis
      by (cases out) (auto simp: step_s_def handleAnalyze_analysis_def handleAnalyze_playlist_def
            handleAnalyze_catch_def Let_def)
  next
    case (Base64Settled i r')
    with en show ?thesis
      by (auto simp: step_s_def handleAnalyze_base64_def handleAnalyze_catch_def
            split: task.splits option.splits)
  qed (use en in \<open>auto simp: step_s_def simple_handlers Let_def split: option.splits\<close>)
qed

lemma append_one_x:
  "sent (step_x toFixed x ev) = sent x \<or> (\<exists>r. sent (step_x toFixed x ev) = sent x @ [r])"
proof (cases "enabled_x x ev")
  case False
  then show ?thesis by (simp add: step_x_def)
next
  case en: True
  show ?thesis
  proof (cases ev)
    case (AiSettled i out)
    with en show ?thesis
      by (cases out) (auto simp: step_x_def handleAnalyzeContext_analysis_def
            handleAnalyzeContext_catch_def generatePlaylist_response_def generatePlaylist_catch_def)
  next
    case (Base64Settled i r')
    with en show ?thesis
      by (auto simp: step_x_def handleAnalyzeContext_base64_def handleAnalyzeContext_catch_def
            split: task.splits option.splits)
  qed (use en in \<open>auto simp: step_x_def extended_handlers Let_def split: option.splits\<close>)
qed

lemma in_flight_none: "tasks s = [] \<Longrightarrow> in_flight s = 0"
  by (simp add: in_flight_def)

lemma count_step_s:
  assumes inv: "inv_s s"
  shows "length (sent (step_s toFixed s ev)) + in_flight s
         = length (sent s) + (if is_response ev \<and> enabled_s s ev then 1 else 0)
           + in_flight (step_s toFixed s ev)"
proof (cases "enabled_s s ev")
  case False
  then show ?thesis by (simp add: step_s_def)
next
  case en: True
  show ?thesis
  proof (cases ev)
    case Analyze
    with en inv have "tasks s = []" by (auto simp: inv_s_def input_view_s_def)
    with en Analyze show ?thesis
      by (auto simp: step_s_def handleAnalyze_def Let_def in_flight_def)
  next
    case (Base64Settled i r)
    with en have "i < length (tasks s)" by simp
    with inv obtain t where "i = 0" "tasks s = [t]"
      unfolding inv_s_def using single_task by blast
    with en Base64Settled show ?thesis
      by (auto simp: step_s_def handleAnalyze_base64_def handleAnalyze_catch_def drop_task_def
            in_flight_def split: task.splits option.splits)
  next
    case (AiSettled i out)
    with en have "i < length (tasks s)" by simp
    with inv obtain t where "i = 0" "tasks s = [t]"
      unfolding inv_s_def using single_task by blast
    with en AiSettled show ?thesis
      by (cases out) (auto simp: step_s_def handleAnalyze_analysis_def handleAnalyze_playlist_def
            handleAnalyze_catch_def drop_task_def in_flight_def Let_def)
  qed (use en in \<open>auto simp: step_s_def simple_handlers in_flight_def split: option.splits\<close>)
qed

lemma count_foldl_s:
  "inv_s s \<Longrightarrow>
     length (sent (foldl (step_s toFixed) s evs)) + in_flight s
       = length (sent s) + responses_s toFixed s evs + in_flight (foldl (step_s toFixed) s evs)"
proof (induction evs arbitrary: s)
  case Nil
  then show ?case by simp
next
  case (Cons ev evs)
  from Cons.prems have "inv_s (step_s toFixed s ev)" by (rule inv_s_step)
  from Cons.IH [OF this] count_step_s [OF Cons.prems, of toFixed ev]
  show ?case by simp
qed

lemma count_step_x:
  assumes inv: "inv_x s"
  shows "length (sent (step_x toFixed s ev)) + in_flight s
         = length (sent s) + (if is_response ev \<and> enabled_x s ev then 1 else 0)
           + in_flight (step_x toFixed s ev)"
proof (cases "enabled_x s ev")
  case False
  then show ?thesis by (simp add: step_x_def)
next
  case en: True
  have idle: "tasks s = []" if "view s \<noteq> ANALYZING"
    using inv that by (auto simp: inv_x_def)
  show ?thesis
  proof (cases ev)
    case CheckWithAI
    with en idle have "tasks s = []" by simp
    with en CheckWithAI show ?thesis
      by (auto simp: step_x_def handleAnalyzeContext_def Let_def in_flight_def)
  next
    case FindMusic
    with en idle have "tasks s = []" by simp
    with en FindMusic show ?thesis
      by (auto simp: step_x_def generatePlaylist_def in_flight_def)
  next
    case AcceptSuggestion
    with en idle have "tasks s = []" by simp
    with en AcceptSuggestion show ?thesis
      by (auto simp: step_x_def acceptSuggestion_def generatePlaylist_def Let_def in_flight_def)
  next
    case KeepSettings
    with en idle have "tasks s = []" by simp
    with en KeepSettings show ?thesis
      by (auto simp: step_x_def keepSettings_def generatePlaylist_def in_flight_def)
  next
    case (Base64Settled i r)
    with en have "i < length (tasks s)" by simp
    with inv obtain t where "i = 0" "tasks s = [t]"
      unfolding inv_x_def using single_task' by blast
    with en Base64Settled show ?thesis
      by (auto simp: step_x_def handleAnalyzeContext_base64_def handleAnalyzeContext_catch_def
            drop_task_def in_flight_def split: task.splits option.splits)
  next
    case (AiSettled i out)
    with en have "i < length (tasks s)" by simp
    with inv obtain t where "i = 0" "tasks s = [t]"
      unfolding inv_x_def using single_task' by blast
    with en AiSettled show ?thesis
      by (cases out) (auto simp: step_x_def handleAnalyzeContext_analysis_def
            handleAnalyzeContext_catch_def generatePlaylist_response_def generatePlaylist_catch_def
            drop_task_def in_flight_def)
  qed (use en in \<open>auto simp: step_x_def extended_handlers in_flight_def Let_def split: option.splits\<close>)
qed

lemma count_foldl_x:
  "inv_x s \<Longrightarrow>
     length (sent (foldl (step_x toFixed) s evs)) + in_flight s
       = length (sent s) + responses_x toFixed s evs + in_flight (foldl (step_x toFixed) s evs)"
proof (induction evs arbitrary: s)
  case Nil
  then show ?case by simp
next
  case (Cons ev evs)
  from Cons.prems have "inv_x (step_x toFixed s ev)" by (rule inv_x_step)
  from Cons.IH [OF this] count_step_x [OF Cons.prems, of toFixed ev]
  show ?case by simp
qed

lemma unanswered_s:
  "length (sent (run_s toFixed evs)) = responses_s toFixed init_simple evs + in_flight (run_s toFixed evs)"
proof -
  have "inv_s init_simple" by (simp add: inv_s_def init_simple_def)
  from count_foldl_s [OF this, of toFixed evs] show ?thesis
    by (simp add: run_s_def in_flight_def init_simple_def)
qed

lemma unanswered_x:
  "length (sent (run_x toFixed evs)) = responses_x toFixed init_extended evs + in_flight (run_x toFixed evs)"
proof -
  have "inv_x init_extended" by (simp add: inv_x_def init_extended_def)
  from count_foldl_x [OF this, of toFixed evs] show ?thesis
    by (simp add: run_x_def in_flight_def init_extended_def)
qed

lemma map_of_set_prop: "map_of (set_prop k v kvs) k = Some v"
  by (induction kvs) auto

subsection \<open>Claims about the orchestration\<close>

text \<open>
  Claim C1, as amended. When an awaited AI call fails (the promise rejects, the
  response text is empty, the text is not JSON or, in the simple variant, it is the JSON
  value \<open>null\<close>), the \<^verbatim>\<open>catch\<close> block sets the view to \<open>INPUT\<close> and clears the
  loading flag. Nothing of the failed call is stored: no playlist, no request is sent, no
  timer is set. Nothing that was stored before the call is rolled back either: the state
  of the session (\<open>userState\<close> and \<open>voiceMetrics\<close> in the simple variant,
  \<open>manualState\<close>, \<open>aiSuggestion\<close> and \<open>playlistResult\<close> in the extended one) is exactly
  what it was when the call was made. A response that parses as JSON is never treated as
  a failure, whatever its shape (in the simple variant: unless it is \<open>null\<close>): the view
  does not return to \<open>INPUT\<close> and no alert is shown.
\<close>

theorem failed_call_returns_to_input:
  "(enabled_s s (AiSettled i out)
      \<and> (out = TransportFailure \<or> out = EmptyResponse \<or> out = NonJson \<or> out = Json JNull) \<longrightarrow>
        view (step_s toFixed s (AiSettled i out)) = INPUT
      \<and> \<not> loading (step_s toFixed s (AiSettled i out))
      \<and> userState (step_s toFixed s (AiSettled i out)) = userState s
      \<and> voiceMetrics (step_s toFixed s (AiSettled i out)) = voiceMetrics s
      \<and> playlist (step_s toFixed s (AiSettled i out)) = playlist s
      \<and> timers1000 (step_s toFixed s (AiSettled i out)) = timers1000 s
      \<and> sent (step_s toFixed s (AiSettled i out)) = sent s)
   \<and> (enabled_x x (AiSettled i out)
      \<and> (out = TransportFailure \<or> out = EmptyResponse \<or> out = NonJson) \<longrightarrow>
        view (step_x toFixed x (AiSettled i out)) = INPUT
      \<and> \<not> loading (step_x toFixed x (AiSettled i out))
      \<and> manualState (step_x toFixed x (AiSettled i out)) = manualState x
      \<and> aiSuggestion (step_x toFixed x (AiSettled i out)) = aiSuggestion x
      \<and> playlistResult (step_x toFixed x (AiSettled i out)) = playlistResult x
      \<and> sent (step_x toFixed x (AiSettled i out)) = sent x)
   \<and> (enabled_s s (AiSettled i (Json j)) \<and> j \<noteq> JNull \<longrightarrow>
        view (step_s toFixed s (AiSettled i (Json j))) = view s
      \<and> loading (step_s toFixed s (AiSettled i (Json j))) = loading s
      \<and> alerts (step_s toFixed s (AiSettled i (Json j))) = alerts s)
   \<and> (enabled_x x (AiSettled i (Json j)) \<longrightarrow>
        view (step_x toFixed x (AiSettled i (Json j)))
          = (if tasks x ! i = AwaitAnalysis then CONFIRMATION else PLAYLIST)
      \<and> alerts (step_x toFixed x (AiSettled i (Json j))) = alerts x)"
proof -
  have c: "view (step_s toFixed s (AiSettled i (Json j))) = view s
      \<and> loading (step_s toFixed s (AiSettled i (Json j))) = loading s
      \<and> alerts (step_s toFixed s (AiSettled i (Json j))) = alerts s"
    if "enabled_s s (AiSettled i (Json j))" and "j \<noteq> JNull"
    using that
    by (simp add: step_s_def handleAnalyze_analysis_def handleAnalyze_playlist_def Let_def)
  have d: "view (step_x toFixed x (AiSettled i (Json j)))
          = (if tasks x ! i = AwaitAnalysis then CONFIRMATION else PLAYLIST)
      \<and> alerts (step_x toFixed x (AiSettled i (Json j))) = alerts x"
    if "enabled_x x (AiSettled i (Json j))"
    using that
    by (simp add: step_x_def handleAnalyzeContext_analysis_def generatePlaylist_response_def)
  have a: "step_s toFixed s (AiSettled i out) = handleAnalyze_catch i s"
    if "enabled_s s (AiSettled i out)"
      and "out = TransportFailure \<or> out = EmptyResponse \<or> out = NonJson \<or> out = Json JNull"
    using that by (auto simp: step_s_def handleAnalyze_analysis_def handleAnalyze_playlist_def)
  have b: "step_x toFixed x (AiSettled i out) = handleAnalyzeContext_catch i x
           \<or> step_x toFixed x (AiSettled i out) = generatePlaylist_catch i x"
    if "enabled_x x (AiSettled i out)"
      and "out = TransportFailure \<or> out = EmptyResponse \<or> out = NonJson"
    using that by (auto simp: step_x_def handleAnalyzeContext_analysis_def generatePlaylist_response_def)
  show ?thesis
  proof (intro conjI impI; (elim conjE)?)
    assume h: "enabled_s s (AiSettled i out)"
      "out = TransportFailure \<or> out = EmptyResponse \<or> out = NonJson \<or> out = Json JNull"
    show "view (step_s toFixed s (AiSettled i out)) = INPUT"
      "\<not> loading (step_s toFixed s (AiSettled i out))"
      "userState (step_s toFixed s (AiSettled i out)) = userState s"
      "voiceMetrics (step_s toFixed s (AiSettled i out)) = voiceMetrics s"
      "playlist (step_s toFixed s (AiSettled i out)) = playlist s"
      "timers1000 (step_s toFixed s (AiSettled i out)) = timers1000 s"
      "sent (step_s toFixed s (AiSettled i out)) = sent s"
      by (simp_all add: a [OF h] handleAnalyze_catch_def)
  next
    assume h: "enabled_x x (AiSettled i out)"
      "out = TransportFailure \<or> out = EmptyResponse \<or> out = NonJson"
    show "view (step_x toFixed x (AiSettled i out)) = INPUT"
      "\<not> loading (step_x toFixed x (AiSettled i out))"
      "manualState (step_x toFixed x (AiSettled i out)) = manualState x"
      "aiSuggestion (step_x toFixed x (AiSettled i out)) = aiSuggestion x"
      "playlistResult (step_x toFixed x (AiSettled i out)) = playlistResult x"
      "sent (step_x toFixed x (AiSettled i out)) = sent x"
      using b [OF h] by (auto simp: handleAnalyzeContext_catch_def generatePlaylist_catch_def)
  next
    assume "enabled_s s (AiSettled i (Json j))" "j \<noteq> JNull"
    from c [OF this]
    show "view (step_s toFixed s (AiSettled i (Json j))) = view s"
      "loading (step_s toFixed s (AiSettled i (Json j))) = loading s"
      "alerts (step_s toFixed s (AiSettled i (Json j))) = alerts s"
      by blast+
  next
    assume "enabled_x x (AiSettled i (Json j))"
    from d [OF this]
    show "view (step_x toFixed x (AiSettled i (Json j)))
          = (if tasks x ! i = AwaitAnalysis then CONFIRMATION else PLAYLIST)"
      "alerts (step_x toFixed x (AiSettled i (Json j))) = alerts x"
      by blast+
  qed
qed

text \<open>
  The theorem at a transport failure of the state-analysis call of the simple variant
  (the view was \<open>ANALYZING\<close>, no state is stored afterwards) and at a response that is not
  JSON to the playlist call of the extended variant.
\<close>

theorem failed_call_returns_to_input_witness:
  "enabled_s (run_s (\<lambda>n v. []) [SetInputMode TEXT, ChangeText ''sad'', Analyze, Timer300])
     (AiSettled 0 TransportFailure)
   \<and> view (run_s (\<lambda>n v. []) [SetInputMode TEXT, ChangeText ''sad'', Analyze, Timer300]) = ANALYZING
   \<and> view (run_s (\<lambda>n v. []) [SetInputMode TEXT, ChangeText ''sad'', Analyze, Timer300,
        AiSettled 0 TransportFailure]) = INPUT
   \<and> userState (run_s (\<lambda>n v. []) [SetInputMode TEXT, ChangeText ''sad'', Analyze, Timer300,
        AiSettled 0 TransportFailure]) = None
   \<and> enabled_x (run_x (\<lambda>n v. []) [ToggleGenre ''jazz'', FindMusic]) (AiSettled 0 NonJson)
   \<and> view (run_x (\<lambda>n v. []) [ToggleGenre ''jazz'', FindMusic, AiSettled 0 NonJson]) = INPUT
   \<and> playlistResult (run_x (\<lambda>n v. []) [ToggleGenre ''jazz'', FindMusic, AiSettled 0 NonJson]) = JNull"
proof -
  let ?evs = "[SetInputMode TEXT, ChangeText ''sad'', Analyze, Timer300]"
  let ?s = "run_s (\<lambda>n v. []) ?evs"
  let ?x = "run_x (\<lambda>n v. []) [ToggleGenre ''jazz'', FindMusic]"
  have en: "enabled_s ?s (AiSettled 0 TransportFailure)" by (simp add: run_s_eval)
  have v: "view ?s = ANALYZING" "userState ?s = None" by (simp_all add: run_s_eval)
  have enx: "enabled_x ?x (AiSettled 0 NonJson)" by (simp add: run_x_eval)
  have px: "playlistResult ?x = JNull" by (simp add: run_x_eval)
  have r: "run_s (\<lambda>n v. []) (?evs @ [AiSettled 0 TransportFailure])
      = step_s (\<lambda>n v. []) ?s (AiSettled 0 TransportFailure)"
    unfolding run_s_def by (simp only: foldl_append foldl.simps)
  have rx: "run_x (\<lambda>n v. []) ([ToggleGenre ''jazz'', FindMusic] @ [AiSettled 0 NonJson])
      = step_x (\<lambda>n v. []) ?x (AiSettled 0 NonJson)"
    unfolding run_x_def by (simp only: foldl_append foldl.simps)
  note t = failed_call_returns_to_input
    [where s = ?s and i = 0 and out = TransportFailure and toFixed = "\<lambda>n v. []" and x = init_extended]
  note tx = failed_call_returns_to_input
    [where s = init_simple and i = 0 and out = NonJson and toFixed = "\<lambda>n v. []" and x = ?x]
  from t en have 1: "view (step_s (\<lambda>n v. []) ?s (AiSettled 0 TransportFailure)) = INPUT"
    by blast
  from t en v have 2: "userState (step_s (\<lambda>n v. []) ?s (AiSettled 0 TransportFailure)) = None"
    by simp
  from tx enx have 3: "view (step_x (\<lambda>n v. []) ?x (AiSettled 0 NonJson)) = INPUT"
    by blast
  from tx enx px have 4: "playlistResult (step_x (\<lambda>n v. []) ?x (AiSettled 0 NonJson)) = JNull"
    by simp
  from en v(1) 1 2 enx 3 4 show ?thesis
    unfolding r [symmetric] rx [symmetric] by simp
qed

text \<open>
  The claim as the specification states it fails: in the simple variant the state-analysis
  call succeeds and stores its state before the playlist call is made, and that state
  is still stored after the playlist call failed. And a response that is JSON but
  violates the schema (here the empty object) is no failure for the code: the extended
  variant stores it and shows the confirmation view.
\<close>

theorem playlist_failure_keeps_analysed_state:
  "userState (run_s (\<lambda>n v. []) [SetInputMode TEXT, ChangeText ''I feel empty'', Analyze, Timer300,
       AiSettled 0 (Json (JObj [(''energy'', JNum (- 0.7)), (''reality'', JNum (- 0.1)),
          (''temporal'', JNum (- 0.2)), (''repetition'', JNum 0.1), (''hedonic'', JNum (- 0.6)),
          (''summary'', JStr ''Depleted'')])), AiSettled 0 TransportFailure])
     = Some \<lparr>energy = Some (JNum (-0.7)), reality = Some (JNum (-0.1)), temporal = Some (JNum (-0.2)),
             repetition = Some (JNum 0.1), hedonic = Some (JNum (-0.6)), summary = Some (JStr ''Depleted'')\<rparr>
   \<and> view (run_s (\<lambda>n v. []) [SetInputMode TEXT, ChangeText ''I feel empty'', Analyze, Timer300,
       AiSettled 0 (Json (JObj [(''energy'', JNum (- 0.7)), (''reality'', JNum (- 0.1)),
          (''temporal'', JNum (- 0.2)), (''repetition'', JNum 0.1), (''hedonic'', JNum (- 0.6)),
          (''summary'', JStr ''Depleted'')])), AiSettled 0 TransportFailure]) = INPUT
   \<and> view (run_x (\<lambda>n v. []) [ToggleGenre ''jazz'', SetActiveTab TEXT, ChangeText ''I feel empty'',
       CheckWithAI, AiSettled 0 (Json (JObj []))]) = CONFIRMATION
   \<and> aiSuggestion (run_x (\<lambda>n v. []) [ToggleGenre ''jazz'', SetActiveTab TEXT, ChangeText ''I feel empty'',
       CheckWithAI, AiSettled 0 (Json (JObj []))]) = JObj []"
  by (simp add: run_s_eval run_x_eval Let_def)

text \<open>
  In the simple variant the timer of 300 ms set by \<^verbatim>\<open>handleAnalyze\<close> may still be pending
  when the call fails; when it fires after the \<^verbatim>\<open>catch\<close> block it sets the view to
  \<open>ANALYZING\<close> again, with \<open>loading\<close> cleared.
\<close>

lemma early_failure_then_timer:
  "view (run_s toFixed [SetInputMode TEXT, ChangeText ''sad'', Analyze, AiSettled 0 TransportFailure, Timer300]) = ANALYZING \<and>
   \<not> loading (run_s toFixed [SetInputMode TEXT, ChangeText ''sad'', Analyze, AiSettled 0 TransportFailure, Timer300])"
  by (simp add: run_s_eval Let_def)

text \<open>
  Claim C4, as amended. An axis value that arrives in the AI response is stored and used
  exactly as it arrived, with no clamp and no check of its range: the simple variant
  stores the five fields of the parsed analysis result as \<open>userState\<close> and embeds them
  in the playlist request; the extended variant stores the parsed suggestion, and on
  "Accept" makes its \<open>suggested_state\<close> the \<open>manualState\<close> and the state of the playlist
  request. A slider stores the value the range control delivers (whose \<^verbatim>\<open>min\<close> and
  \<^verbatim>\<open>max\<close> are -1 and 1), also unchanged.
\<close>

theorem ai_axis_values_stored_unmodified:
  "(enabled_s s (AiSettled i (Json j)) \<and> tasks s ! i = AwaitAnalysis \<and> j \<noteq> JNull \<longrightarrow>
      userState (step_s toFixed s (AiSettled i (Json j)))
        = Some \<lparr>energy = get_prop j ''energy'', reality = get_prop j ''reality'',
                temporal = get_prop j ''temporal'', repetition = get_prop j ''repetition'',
                hedonic = get_prop j ''hedonic'', summary = get_prop j ''summary''\<rparr>
    \<and> sent (step_s toFixed s (AiSettled i (Json j)))
        = sent s @ [PlaylistFor \<lparr>energy = get_prop j ''energy'', reality = get_prop j ''reality'',
                temporal = get_prop j ''temporal'', repetition = get_prop j ''repetition'',
                hedonic = get_prop j ''hedonic'', summary = get_prop j ''summary''\<rparr> HEALTHY_TARGET])
   \<and> (enabled_x x (AiSettled i (Json j)) \<and> tasks x ! i = AwaitAnalysis \<longrightarrow>
      aiSuggestion (step_x toFixed x (AiSettled i (Json j))) = j)
   \<and> (enabled_x x AcceptSuggestion \<longrightarrow>
      manualState (step_x toFixed x AcceptSuggestion) = get_prop (aiSuggestion x) ''suggested_state''
    \<and> sent (step_x toFixed x AcceptSuggestion)
        = sent x @ [PlaylistJourney (get_prop (aiSuggestion x) ''suggested_state'') HEALTHY_TARGET
                      (selectedGenres x) (excludedGenres x)])
   \<and> (enabled_x x (SliderChange axis val) \<longrightarrow>
      (\<exists>kvs. manualState (step_x toFixed x (SliderChange axis val)) = Some (JObj kvs)
             \<and> get_prop (JObj kvs) axis = Some (JNum val)))
   \<and> get_prop (JObj [(''energy'', JNum v)]) ''energy'' = Some (JNum v)"
proof -
  have a: "userState (step_s toFixed s (AiSettled i (Json j)))
        = Some \<lparr>energy = get_prop j ''energy'', reality = get_prop j ''reality'',
                temporal = get_prop j ''temporal'', repetition = get_prop j ''repetition'',
                hedonic = get_prop j ''hedonic'', summary = get_prop j ''summary''\<rparr>
    \<and> sent (step_s toFixed s (AiSettled i (Json j)))
        = sent s @ [PlaylistFor \<lparr>energy = get_prop j ''energy'', reality = get_prop j ''reality'',
                temporal = get_prop j ''temporal'', repetition = get_prop j ''repetition'',
                hedonic = get_prop j ''hedonic'', summary = get_prop j ''summary''\<rparr> HEALTHY_TARGET]"
    if "enabled_s s (AiSettled i (Json j)) \<and> tasks s ! i = AwaitAnalysis \<and> j \<noteq> JNull"
    using that by (simp add: step_s_def handleAnalyze_analysis_def Let_def)
  have b: "aiSuggestion (step_x toFixed x (AiSettled i (Json j))) = j"
    if "enabled_x x (AiSettled i (Json j)) \<and> tasks x ! i = AwaitAnalysis"
    using that by (simp add: step_x_def handleAnalyzeContext_analysis_def)
  have c: "manualState (step_x toFixed x AcceptSuggestion) = get_prop (aiSuggestion x) ''suggested_state''
    \<and> sent (step_x toFixed x AcceptSuggestion)
        = sent x @ [PlaylistJourney (get_prop (aiSuggestion x) ''suggested_state'') HEALTHY_TARGET
                      (selectedGenres x) (excludedGenres x)]"
    if "enabled_x x AcceptSuggestion"
    using that by (simp add: step_x_def acceptSuggestion_def generatePlaylist_def Let_def)
  have d: "\<exists>kvs. manualState (step_x toFixed x (SliderChange axis val)) = Some (JObj kvs)
             \<and> get_prop (JObj kvs) axis = Some (JNum val)"
    if "enabled_x x (SliderChange axis val)"
    using that by (simp add: step_x_def handleSliderChange_def map_of_set_prop)
  have e: "get_prop (JObj [(''energy'', JNum v)]) ''energy'' = Some (JNum v)" by simp
  from a b c d e show ?thesis by blast
qed

text \<open>
  The theorem at a response whose only field is \<open>energy = 1\<close>, and at the slider value -1.
\<close>

theorem ai_axis_values_stored_unmodified_witness:
  "enabled_s (run_s (\<lambda>n v. []) [SetInputMode TEXT, ChangeText ''sad'', Analyze])
      (AiSettled 0 (Json (JObj [(''energy'', JNum 1)])))
   \<and> tasks (run_s (\<lambda>n v. []) [SetInputMode TEXT, ChangeText ''sad'', Analyze]) ! 0 = AwaitAnalysis
   \<and> userState (run_s (\<lambda>n v. []) [SetInputMode TEXT, ChangeText ''sad'', Analyze,
         AiSettled 0 (Json (JObj [(''energy'', JNum 1)]))])
       = Some \<lparr>energy = Some (JNum 1), reality = None, temporal = None, repetition = None,
               hedonic = None, summary = None\<rparr>
   \<and> enabled_x init_extended (SliderChange ''energy'' (- 1))
   \<and> get_prop (the (manualState (step_x (\<lambda>n v. []) init_extended (SliderChange ''energy'' (- 1))))) ''energy''
       = Some (JNum (- 1))"
proof -
  let ?evs = "[SetInputMode TEXT, ChangeText ''sad'', Analyze]"
  let ?s = "run_s (\<lambda>n v. []) ?evs"
  let ?j = "JObj [(''energy'', JNum 1)]"
  have en: "enabled_s ?s (AiSettled 0 (Json ?j))" by (simp add: run_s_eval Let_def)
  have tk: "tasks ?s ! 0 = AwaitAnalysis" by (simp add: run_s_eval Let_def)
  have nn: "?j \<noteq> JNull" by simp
  have r: "run_s (\<lambda>n v. []) (?evs @ [AiSettled 0 (Json ?j)]) = step_s (\<lambda>n v. []) ?s (AiSettled 0 (Json ?j))"
    unfolding run_s_def by (simp only: foldl_append foldl.simps)
  have enx: "enabled_x init_extended (SliderChange ''energy'' (- 1))"
    by (simp add: init_extended_def AXES_def)
  note t = ai_axis_values_stored_unmodified
    [where s = ?s and i = 0 and j = ?j and toFixed = "\<lambda>n v. []" and x = init_extended
       and axis = "''energy''" and val = "- 1"]
  from t en tk nn
  have 1: "userState (step_s (\<lambda>n v. []) ?s (AiSettled 0 (Json ?j)))
       = Some \<lparr>energy = get_prop ?j ''energy'', reality = get_prop ?j ''reality'',
                temporal = get_prop ?j ''temporal'', repetition = get_prop ?j ''repetition'',
                hedonic = get_prop ?j ''hedonic'', summary = get_prop ?j ''summary''\<rparr>"
    by blast
  from t enx obtain kvs where
    k: "manualState (step_x (\<lambda>n v. []) init_extended (SliderChange ''energy'' (- 1))) = Some (JObj kvs)"
       "get_prop (JObj kvs) ''energy'' = Some (JNum (- 1))"
    by blast
  from k have 2: "get_prop (the (manualState (step_x (\<lambda>n v. []) init_extended (SliderChange ''energy'' (- 1))))) ''energy''
       = Some (JNum (- 1))"
    by simp
  from 1 have 3: "userState (step_s (\<lambda>n v. []) ?s (AiSettled 0 (Json ?j)))
       = Some \<lparr>energy = Some (JNum 1), reality = None, temporal = None, repetition = None,
               hedonic = None, summary = None\<rparr>"
    by simp
  from en tk 3 enx 2 show ?thesis unfolding r [symmetric] by simp
qed

text \<open>
  The claim as the specification states it fails: the response values 1.1 and -1.3 of the
  specification's own example are stored as \<open>userState\<close> and sent on in the playlist
  request, neither clamped nor rejected.
\<close>

theorem out_of_range_axis_stored:
  "userState (run_s (\<lambda>n v. []) [SetInputMode TEXT, ChangeText ''wired'', Analyze, Timer300,
       AiSettled 0 (Json (JObj [(''energy'', JNum 1.1), (''reality'', JNum 0), (''temporal'', JNum 0),
          (''repetition'', JNum 0), (''hedonic'', JNum (- 1.3)), (''summary'', JStr ''Wired'')]))])
     = Some \<lparr>energy = Some (JNum 1.1), reality = Some (JNum 0), temporal = Some (JNum 0),
             repetition = Some (JNum 0), hedonic = Some (JNum (- 1.3)), summary = Some (JStr ''Wired'')\<rparr>
   \<and> sent (run_s (\<lambda>n v. []) [SetInputMode TEXT, ChangeText ''wired'', Analyze, Timer300,
       AiSettled 0 (Json (JObj [(''energy'', JNum 1.1), (''reality'', JNum 0), (''temporal'', JNum 0),
          (''repetition'', JNum 0), (''hedonic'', JNum (- 1.3)), (''summary'', JStr ''Wired'')]))])
     = [AnalyzeText ''wired'',
        PlaylistFor \<lparr>energy = Some (JNum 1.1), reality = Some (JNum 0), temporal = Some (JNum 0),
             repetition = Some (JNum 0), hedonic = Some (JNum (- 1.3)), summary = Some (JStr ''Wired'')\<rparr>
          HEALTHY_TARGET]
   \<and> \<not> ((1.1 :: real) \<le> 1) \<and> \<not> (- 1 \<le> (- 1.3 :: real))"
  by (simp add: run_s_eval Let_def)

text \<open>
  Claim C5. In every run of either variant the requests are strictly sequential. A step
  sends at most one request. The number of requests sent equals the number of responses
  delivered plus the number of requests in flight, and at most one request is in flight
  at any time. A playlist request is sent only when the state it embeds is there: in the
  simple variant in the step that delivers the response of the state-analysis request,
  which was the one request in flight, and stores its state; in the extended variant by
  one of the buttons "Find Music for This Mood", "Accept" and "Keep My Settings" (the
  last two exist in the confirmation view only, after the analysis), when no request is
  in flight. Its payload is that current state together with the constant
  \<open>HEALTHY_TARGET\<close>, which is energy 0, reality 0.2, temporal 0, repetition 0,
  hedonic 0.2; every playlist request a run has sent carries that target.
\<close>

theorem requests_are_sequential:
  "in_flight (run_s toFixed evs) \<le> 1
   \<and> in_flight (run_x toFixed evs) \<le> 1
   \<and> length (sent (run_s toFixed evs))
        = responses_s toFixed init_simple evs + in_flight (run_s toFixed evs)
   \<and> length (sent (run_x toFixed evs))
        = responses_x toFixed init_extended evs + in_flight (run_x toFixed evs)
   \<and> (sent (step_s toFixed s ev) = sent s \<or> (\<exists>q. sent (step_s toFixed s ev) = sent s @ [q]))
   \<and> (sent (step_x toFixed x ev) = sent x \<or> (\<exists>q. sent (step_x toFixed x ev) = sent x @ [q]))
   \<and> (sent (step_s toFixed s ev) = sent s @ [r] \<and> is_playlist_request r \<longrightarrow>
        (\<exists>i j c. ev = AiSettled i (Json j) \<and> tasks s ! i = AwaitAnalysis
            \<and> userState (step_s toFixed s ev) = Some c \<and> r = PlaylistFor c HEALTHY_TARGET))
   \<and> (sent (step_x toFixed x ev) = sent x @ [r] \<and> is_playlist_request r \<longrightarrow>
        (ev = FindMusic \<or> ev = AcceptSuggestion \<or> ev = KeepSettings)
        \<and> r = PlaylistJourney (manualState (step_x toFixed x ev)) HEALTHY_TARGET
                 (selectedGenres x) (excludedGenres x))
   \<and> (sent (step_s toFixed (run_s toFixed evs) ev) = sent (run_s toFixed evs) @ [r]
        \<and> is_playlist_request r \<longrightarrow>
          tasks (run_s toFixed evs) = [AwaitAnalysis] \<and> is_response ev
        \<and> tasks (step_s toFixed (run_s toFixed evs) ev) = [AwaitPlaylist])
   \<and> (sent (step_x toFixed (run_x toFixed evs) ev) = sent (run_x toFixed evs) @ [r]
        \<and> is_playlist_request r \<longrightarrow>
          in_flight (run_x toFixed evs) = 0
        \<and> tasks (step_x toFixed (run_x toFixed evs) ev) = [AwaitPlaylist])
   \<and> (\<forall>q \<in> set (sent (run_s toFixed evs)). is_playlist_request q \<longrightarrow>
          (\<exists>c. q = PlaylistFor c HEALTHY_TARGET))
   \<and> (\<forall>q \<in> set (sent (run_x toFixed evs)). is_playlist_request q \<longrightarrow>
          (\<exists>c g e. q = PlaylistJourney c HEALTHY_TARGET g e))
   \<and> (enabled_x x AcceptSuggestion \<or> enabled_x x KeepSettings \<longrightarrow> view x = CONFIRMATION)
   \<and> HEALTHY_TARGET =
        \<lparr>energy = Some (JNum 0), reality = Some (JNum 0.2), temporal = Some (JNum 0),
         repetition = Some (JNum 0), hedonic = Some (JNum 0.2), summary = None\<rparr>"
proof -
  let ?s = "run_s toFixed evs" and ?x = "run_x toFixed evs"
  have a: "in_flight ?s \<le> 1"
    using inv_s_run [of toFixed evs] in_flight_le_tasks [of ?s] by (simp add: inv_s_def)
  have b: "in_flight ?x \<le> 1"
    using inv_x_run [of toFixed evs] in_flight_le_tasks [of ?x] by (simp add: inv_x_def)
  have c: "enabled_x x AcceptSuggestion \<or> enabled_x x KeepSettings \<longrightarrow> view x = CONFIRMATION"
    by auto
  have d: "HEALTHY_TARGET =
        \<lparr>energy = Some (JNum 0), reality = Some (JNum 0.2), temporal = Some (JNum 0),
         repetition = Some (JNum 0), hedonic = Some (JNum 0.2), summary = None\<rparr>"
    by (simp add: HEALTHY_TARGET_def)
  have e: "tasks ?s = [AwaitAnalysis] \<and> is_response ev \<and> tasks (step_s toFixed ?s ev) = [AwaitPlaylist]"
    if h: "sent (step_s toFixed ?s ev) = sent ?s @ [r]" "is_playlist_request r"
  proof -
    from sends_s [OF h] obtain i j where ev: "ev = AiSettled i (Json j)"
      and t: "tasks ?s ! i = AwaitAnalysis" by blast
    have en: "enabled_s ?s ev"
    proof (rule ccontr)
      assume "\<not> enabled_s ?s ev"
      then have "step_s toFixed ?s ev = ?s" by (simp add: step_s_def)
      with h(1) show False by simp
    qed
    with ev have "i < length (tasks ?s)" by simp
    with inv_s_run [of toFixed evs] obtain t' where i: "i = 0" and ts: "tasks ?s = [t']"
      unfolding inv_s_def using single_task by blast
    with t have ts: "tasks ?s = [AwaitAnalysis]" by simp
    have "j \<noteq> JNull"
    proof
      assume "j = JNull"
      with en ev t have "sent (step_s toFixed ?s ev) = sent ?s"
        by (simp add: step_s_def handleAnalyze_analysis_def handleAnalyze_catch_def)
      with h(1) show False by simp
    qed
    with en ev t i ts have "tasks (step_s toFixed ?s ev) = [AwaitPlaylist]"
      by (simp add: step_s_def handleAnalyze_analysis_def Let_def)
    with ts ev show ?thesis by simp
  qed
  have f: "in_flight ?x = 0 \<and> tasks (step_x toFixed ?x ev) = [AwaitPlaylist]"
    if h: "sent (step_x toFixed ?x ev) = sent ?x @ [r]" "is_playlist_request r"
  proof -
    from sends_x [OF h] have ev: "ev = FindMusic \<or> ev = AcceptSuggestion \<or> ev = KeepSettings"
      by blast
    have en: "enabled_x ?x ev"
    proof (rule ccontr)
      assume "\<not> enabled_x ?x ev"
      then have "step_x toFixed ?x ev = ?x" by (simp add: step_x_def)
      with h(1) show False by simp
    qed
    with ev have "view ?x \<noteq> ANALYZING" by auto
    with inv_x_run [of toFixed evs] have ts: "tasks ?x = []" by (rule input_no_task_x)
    with en ev have "tasks (step_x toFixed ?x ev) = [AwaitPlaylist]"
      by (auto simp: step_x_def generatePlaylist_def acceptSuggestion_def keepSettings_def Let_def)
    with ts show ?thesis by (simp add: in_flight_none)
  qed
  have g: "\<exists>c. q = PlaylistFor c HEALTHY_TARGET"
    if "q \<in> set (sent ?s)" "is_playlist_request q" for q
  proof -
    have inv: "\<forall>q \<in> set (sent ?s). is_playlist_request q \<longrightarrow> (\<exists>c. q = PlaylistFor c HEALTHY_TARGET)"
      unfolding run_s_def
    proof (induction evs rule: rev_induct)
      case Nil
      then show ?case by (simp add: init_simple_def)
    next
      case (snoc ev' evs')
      let ?p = "foldl (step_s toFixed) init_simple evs'"
      from append_one_s [of toFixed ?p ev'] show ?case
      proof
        assume "sent (step_s toFixed ?p ev') = sent ?p"
        with snoc show ?thesis by simp
      next
        assume "\<exists>q. sent (step_s toFixed ?p ev') = sent ?p @ [q]"
        then obtain q' where q': "sent (step_s toFixed ?p ev') = sent ?p @ [q']" by blast
        have "is_playlist_request q' \<longrightarrow> (\<exists>c. q' = PlaylistFor c HEALTHY_TARGET)"
          using sends_s [OF q'] by blast
        with snoc q' show ?thesis by auto
      qed
    qed
    with that show ?thesis by blast
  qed
  have k: "\<exists>c g e. q = PlaylistJourney c HEALTHY_TARGET g e"
    if "q \<in> set (sent ?x)" "is_playlist_request q" for q
  proof -
    have inv: "\<forall>q \<in> set (sent ?x). is_playlist_request q \<longrightarrow> (\<exists>c g e. q = PlaylistJourney c HEALTHY_TARGET g e)"
      unfolding run_x_def
    proof (induction evs rule: rev_induct)
      case Nil
      then show ?case by (simp add: init_extended_def)
    next
      case (snoc ev' evs')
      let ?p = "foldl (step_x toFixed) init_extended evs'"
      from append_one_x [of toFixed ?p ev'] show ?case
      proof
        assume "sent (step_x toFixed ?p ev') = sent ?p"
        with snoc show ?thesis by simp
      next
        assume "\<exists>q. sent (step_x toFixed ?p ev') = sent ?p @ [q]"
        then obtain q' where q': "sent (step_x toFixed ?p ev') = sent ?p @ [q']" by blast
        have "is_playlist_request q' \<longrightarrow> (\<exists>c g e. q' = PlaylistJourney c HEALTHY_TARGET g e)"
          using sends_x [OF q'] by blast
        with snoc q' show ?thesis by auto
      qed
    qed
    with that show ?thesis by blast
  qed
  show ?thesis
    apply (intro conjI)
    subgoal by (rule a)
    subgoal by (rule b)
    subgoal by (rule unanswered_s)
    subgoal by (rule unanswered_x)
    subgoal by (rule append_one_s)
    subgoal by (rule append_one_x)
    subgoal using sends_s [of toFixed s ev r] by blast
    subgoal using sends_x [of toFixed x ev r] by blast
    subgoal using e by blast
    subgoal using f by blast
    subgoal using g by blast
    subgoal using k by blast
    subgoal by (rule c)
    subgoal by (rule d)
    done
qed

text \<open>
  The theorem at the step of the simple variant that receives an analysis result and sends
  the playlist request, at the slider submission of the extended variant, and at a run in
  which "Analyze" is clicked twice: one request is in flight.
  In the run of a whole session of the simple variant two responses are delivered, no
  request is left in flight, and two requests were sent.
\<close>

theorem requests_are_sequential_witness:
  "sent (step_s (\<lambda>n v. []) (run_s (\<lambda>n v. []) [SetInputMode TEXT, ChangeText ''sad'', Analyze])
           (AiSettled 0 (Json (JObj [(''energy'', JNum 0)]))))
     = sent (run_s (\<lambda>n v. []) [SetInputMode TEXT, ChangeText ''sad'', Analyze])
       @ [PlaylistFor \<lparr>energy = Some (JNum 0), reality = None, temporal = None, repetition = None,
               hedonic = None, summary = None\<rparr> HEALTHY_TARGET]
   \<and> is_playlist_request (PlaylistFor \<lparr>energy = Some (JNum 0), reality = None, temporal = None,
         repetition = None, hedonic = None, summary = None\<rparr> HEALTHY_TARGET)
   \<and> (\<exists>i j c. AiSettled 0 (Json (JObj [(''energy'', JNum 0)])) = AiSettled i (Json j)
         \<and> tasks (run_s (\<lambda>n v. []) [SetInputMode TEXT, ChangeText ''sad'', Analyze]) ! i = AwaitAnalysis
         \<and> userState (step_s (\<lambda>n v. []) (run_s (\<lambda>n v. []) [SetInputMode TEXT, ChangeText ''sad'', Analyze])
               (AiSettled 0 (Json (JObj [(''energy'', JNum 0)])))) = Some c)
   \<and> sent (step_x (\<lambda>n v. []) (run_x (\<lambda>n v. []) [ToggleGenre ''jazz'']) FindMusic)
     = sent (run_x (\<lambda>n v. []) [ToggleGenre ''jazz''])
       @ [PlaylistJourney (Some INITIAL_STATE) HEALTHY_TARGET [''jazz''] []]
   \<and> manualState (step_x (\<lambda>n v. []) (run_x (\<lambda>n v. []) [ToggleGenre ''jazz'']) FindMusic)
     = Some INITIAL_STATE
   \<and> in_flight (run_s (\<lambda>n v. []) [SetInputMode TEXT, ChangeText ''sad'', Analyze, Analyze]) = 1
   \<and> responses_s (\<lambda>n v. []) init_simple [SetInputMode TEXT, ChangeText ''sad'', Analyze,
         AiSettled 0 (Json (JObj [(''energy'', JNum 0)])), AiSettled 0 (Json (JObj [(''songs'', JArr [])]))] = 2
   \<and> in_flight (run_s (\<lambda>n v. []) [SetInputMode TEXT, ChangeText ''sad'', Analyze,
         AiSettled 0 (Json (JObj [(''energy'', JNum 0)])), AiSettled 0 (Json (JObj [(''songs'', JArr [])]))]) = 0
   \<and> length (sent (run_s (\<lambda>n v. []) [SetInputMode TEXT, ChangeText ''sad'', Analyze,
         AiSettled 0 (Json (JObj [(''energy'', JNum 0)])), AiSettled 0 (Json (JObj [(''songs'', JArr [])]))])) = 2
   \<and> tasks (run_s (\<lambda>n v. []) [SetInputMode TEXT, ChangeText ''sad'', Analyze]) = [AwaitAnalysis]
   \<and> in_flight (run_x (\<lambda>n v. []) [ToggleGenre ''jazz'']) = 0"
proof -
  let ?full = "[SetInputMode TEXT, ChangeText ''sad'', Analyze,
         AiSettled 0 (Json (JObj [(''energy'', JNum 0)])), AiSettled 0 (Json (JObj [(''songs'', JArr [])]))]"
  have rs: "responses_s (\<lambda>n v. []) init_simple ?full = 2"
    by (simp add: run_s_eval Let_def)
  have fz: "in_flight (run_s (\<lambda>n v. []) ?full) = 0"
    by (simp add: run_s_eval Let_def in_flight_def)
  note tf = requests_are_sequential [where toFixed = "\<lambda>n v. []" and evs = ?full]
  from tf have "length (sent (run_s (\<lambda>n v. []) ?full))
      = responses_s (\<lambda>n v. []) init_simple ?full + in_flight (run_s (\<lambda>n v. []) ?full)"
    by (rule conjunct1 [OF conjunct2 [OF conjunct2]])
  with rs fz have len: "length (sent (run_s (\<lambda>n v. []) ?full)) = 2" by simp
  let ?s = "run_s (\<lambda>n v. []) [SetInputMode TEXT, ChangeText ''sad'', Analyze]"
  let ?ev = "AiSettled 0 (Json (JObj [(''energy'', JNum 0)]))"
  let ?r = "PlaylistFor \<lparr>energy = Some (JNum 0), reality = None, temporal = None, repetition = None,
               hedonic = None, summary = None\<rparr> HEALTHY_TARGET"
  let ?x = "run_x (\<lambda>n v. []) [ToggleGenre ''jazz'']"
  let ?rx = "PlaylistJourney (Some INITIAL_STATE) HEALTHY_TARGET [''jazz''] []"
  have h1: "sent (step_s (\<lambda>n v. []) ?s ?ev) = sent ?s @ [?r]"
    by (simp add: run_s_eval Let_def)
  have h2: "is_playlist_request ?r" by simp
  have hx1: "sent (step_x (\<lambda>n v. []) ?x FindMusic) = sent ?x @ [?rx]"
    by (simp add: run_x_eval)
  have hx2: "is_playlist_request ?rx" by simp
  have fl: "0 < in_flight (run_s (\<lambda>n v. []) [SetInputMode TEXT, ChangeText ''sad'', Analyze, Analyze])"
    by (simp add: run_s_eval Let_def in_flight_def)
  note t = requests_are_sequential
    [where s = ?s and ev = ?ev and r = ?r and toFixed = "\<lambda>n v. []" and x = ?x
       and evs = "[SetInputMode TEXT, ChangeText ''sad'', Analyze, Analyze]"]
  note tx = requests_are_sequential
    [where s = ?s and ev = FindMusic and r = ?rx and toFixed = "\<lambda>n v. []" and x = ?x and evs = "[]"]
  from t h1 h2 have 1: "\<exists>i j c. ?ev = AiSettled i (Json j) \<and> tasks ?s ! i = AwaitAnalysis
         \<and> userState (step_s (\<lambda>n v. []) ?s ?ev) = Some c \<and> ?r = PlaylistFor c HEALTHY_TARGET"
    by blast
  then have 1: "\<exists>i j c. ?ev = AiSettled i (Json j) \<and> tasks ?s ! i = AwaitAnalysis
         \<and> userState (step_s (\<lambda>n v. []) ?s ?ev) = Some c"
    by blast
  from tx hx1 hx2
  have "?rx = PlaylistJourney (manualState (step_x (\<lambda>n v. []) ?x FindMusic)) HEALTHY_TARGET
                 (selectedGenres ?x) (excludedGenres ?x)"
    by blast
  then have 2: "manualState (step_x (\<lambda>n v. []) ?x FindMusic) = Some INITIAL_STATE" by simp
  from t have "in_flight (run_s (\<lambda>n v. []) [SetInputMode TEXT, ChangeText ''sad'', Analyze, Analyze]) \<le> 1"
    by blast
  with fl have 3: "in_flight (run_s (\<lambda>n v. []) [SetInputMode TEXT, ChangeText ''sad'', Analyze, Analyze]) = 1"
    by simp
  note tr = requests_are_sequential
    [where ev = ?ev and r = ?r and toFixed = "\<lambda>n v. []"
       and evs = "[SetInputMode TEXT, ChangeText ''sad'', Analyze]"]
  from tr h1 h2 have 4: "tasks ?s = [AwaitAnalysis]" by blast
  note trx = requests_are_sequential
    [where ev = FindMusic and r = ?rx and toFixed = "\<lambda>n v. []" and evs = "[ToggleGenre ''jazz'']"]
  from trx hx1 hx2 have 5: "in_flight ?x = 0" by blast
  from h1 h2 1 hx1 2 3 rs fz len 4 5 show ?thesis by (intro conjI)
qed

text \<open>
  Claim C6, as amended. "Start Over" sets the view to \<open>INPUT\<close> and clears the text input
  and the recorded blob. The simple variant also resets \<open>userState\<close> to \<^verbatim>\<open>null\<close> and the
  voice analysis to \<^verbatim>\<open>undefined\<close>. The extended variant also clears the suggestion, the
  playlist result and both genre selections, and keeps the state of the sliders
  (\<open>manualState\<close>) as it is.
\<close>

theorem start_over_clears:
  "(enabled_s s StartOver \<longrightarrow>
      view (step_s toFixed s StartOver) = INPUT
    \<and> userState (step_s toFixed s StartOver) = None
    \<and> voiceMetrics (step_s toFixed s StartOver) = None
    \<and> inputText (step_s toFixed s StartOver) = []
    \<and> audioBlob (step_s toFixed s StartOver) = None)
   \<and> (enabled_x x StartOver \<longrightarrow>
      view (step_x toFixed x StartOver) = INPUT
    \<and> inputText (step_x toFixed x StartOver) = []
    \<and> audioBlob (step_x toFixed x StartOver) = None
    \<and> aiSuggestion (step_x toFixed x StartOver) = JNull
    \<and> playlistResult (step_x toFixed x StartOver) = JNull
    \<and> selectedGenres (step_x toFixed x StartOver) = []
    \<and> excludedGenres (step_x toFixed x StartOver) = []
    \<and> manualState (step_x toFixed x StartOver) = manualState x)"
  by (simp add: step_s_def step_x_def startOver_s_def startOver_x_def)

text \<open>
  The theorem at the playlist view of each variant, reached by a run.
\<close>

theorem start_over_clears_witness:
  "enabled_x (run_x (\<lambda>n v. []) [ToggleGenre ''jazz'', FindMusic, AiSettled 0 (Json (JObj [(''songs'', JArr [])]))]) StartOver
   \<and> view (run_x (\<lambda>n v. []) [ToggleGenre ''jazz'', FindMusic, AiSettled 0 (Json (JObj [(''songs'', JArr [])]))]) = PLAYLIST
   \<and> view (run_x (\<lambda>n v. []) [ToggleGenre ''jazz'', FindMusic, AiSettled 0 (Json (JObj [(''songs'', JArr [])])), StartOver]) = INPUT
   \<and> playlistResult (run_x (\<lambda>n v. []) [ToggleGenre ''jazz'', FindMusic, AiSettled 0 (Json (JObj [(''songs'', JArr [])])), StartOver]) = JNull
   \<and> enabled_s (run_s (\<lambda>n v. []) [SetInputMode TEXT, ChangeText ''sad'', Analyze, Timer300,
        AiSettled 0 (Json (JObj [])), AiSettled 0 (Json (JObj [])), Timer1000]) StartOver
   \<and> userState (run_s (\<lambda>n v. []) [SetInputMode TEXT, ChangeText ''sad'', Analyze, Timer300,
        AiSettled 0 (Json (JObj [])), AiSettled 0 (Json (JObj [])), Timer1000, StartOver]) = None"
proof -
  let ?xe = "[ToggleGenre ''jazz'', FindMusic, AiSettled 0 (Json (JObj [(''songs'', JArr [])]))]"
  let ?x = "run_x (\<lambda>n v. []) ?xe"
  let ?se = "[SetInputMode TEXT, ChangeText ''sad'', Analyze, Timer300,
        AiSettled 0 (Json (JObj [])), AiSettled 0 (Json (JObj [])), Timer1000]"
  let ?s = "run_s (\<lambda>n v. []) ?se"
  have enx: "enabled_x ?x StartOver" and vx: "view ?x = PLAYLIST" by (simp_all add: run_x_eval)
  have ens: "enabled_s ?s StartOver" by (simp add: run_s_eval Let_def)
  have rx: "run_x (\<lambda>n v. []) (?xe @ [StartOver]) = step_x (\<lambda>n v. []) ?x StartOver"
    unfolding run_x_def by (simp only: foldl_append foldl.simps)
  have rs: "run_s (\<lambda>n v. []) (?se @ [StartOver]) = step_s (\<lambda>n v. []) ?s StartOver"
    unfolding run_s_def by (simp only: foldl_append foldl.simps)
  note t = start_over_clears [where s = ?s and x = ?x and toFixed = "\<lambda>n v. []"]
  from t enx have 1: "view (step_x (\<lambda>n v. []) ?x StartOver) = INPUT"
    and 2: "playlistResult (step_x (\<lambda>n v. []) ?x StartOver) = JNull" by blast+
  from t ens have 3: "userState (step_s (\<lambda>n v. []) ?s StartOver) = None" by blast
  from enx vx 1 2 ens 3 show ?thesis unfolding rx [symmetric] rs [symmetric] by simp
qed

text \<open>
  The claim as the specification states it fails: in the extended variant the emotional
  state is not reset to its defaults by "Start Over"; a slider moved to 0.7 before the
  session is still at 0.7 afterwards.
\<close>

theorem start_over_keeps_slider_state:
  "view (run_x (\<lambda>n v. []) [SliderChange ''energy'' 0.7, ToggleGenre ''jazz'', FindMusic,
       AiSettled 0 (Json (JObj [(''songs'', JArr [])]))]) = PLAYLIST
   \<and> view (run_x (\<lambda>n v. []) [SliderChange ''energy'' 0.7, ToggleGenre ''jazz'', FindMusic,
       AiSettled 0 (Json (JObj [(''songs'', JArr [])])), StartOver]) = INPUT
   \<and> manualState (run_x (\<lambda>n v. []) [SliderChange ''energy'' 0.7, ToggleGenre ''jazz'', FindMusic,
       AiSettled 0 (Json (JObj [(''songs'', JArr [])])), StartOver])
     = Some (JObj [(''energy'', JNum 0.7), (''reality'', JNum 0), (''temporal'', JNum 0),
           (''repetition'', JNum 0), (''hedonic'', JNum 0), (''summary'', JStr ''Neutral'')])
   \<and> manualState (run_x (\<lambda>n v. []) [SliderChange ''energy'' 0.7, ToggleGenre ''jazz'', FindMusic,
       AiSettled 0 (Json (JObj [(''songs'', JArr [])])), StartOver]) \<noteq> Some INITIAL_STATE"
  by (simp add: run_x_eval)

text \<open>
  What holds of a failed decode in every state: nothing is stored and no alert is shown;
  the metrics string of the next voice request is empty exactly when no metrics are
  stored.
\<close>

lemma failed_decode_is_silent:
  "analyzeRecordedAudio None s = s"
  "metrics (onstop b None (stopRecording s)) = metrics s"
  "alerts (onstop b None (stopRecording s)) = alerts s"
  "(clientMetricsStr toFixed m = []) = (m = None)"
  "(clientMetricsStr_x toFixed m = []) = (m = None)"
  by (simp_all add: analyzeRecordedAudio_def onstop_def stopRecording_def clientMetricsStr_def
        clientMetricsStr_x_def split: option.splits)

lemma first_recording_undecoded_sends_no_metrics:
  "sent (run_s toFixed [StartRecording True, StopRecording ''only'' None, Analyze,
       Base64Settled 0 (Some ''b25seQ=='')]) = [AnalyzeVoice [] ''b25seQ=='']"
  by (simp add: run_s_eval clientMetricsStr_def Let_def)

text \<open>
  Claim C8, at the input where the code departs from it. A first recording is decoded and
  its metrics are stored; the user records again and the second blob fails to decode.
  Nothing resets \<open>metrics\<close> (\<^verbatim>\<open>setMetrics\<close> is called on a successful decode only), so
  the request for the second recording is sent with the metrics of the first one in its
  prompt, not with the empty metrics string.
\<close>

theorem stale_metrics_after_failed_decode:
  "metrics (run_s toFixed [StartRecording True, StopRecording ''first'' (Some [1 / 2, - 1 / 2]),
       RecordAgain True, StopRecording ''second'' None])
     = Some (compute_metrics [1 / 2, - 1 / 2])
   \<and> audioBlob (run_s toFixed [StartRecording True, StopRecording ''first'' (Some [1 / 2, - 1 / 2]),
       RecordAgain True, StopRecording ''second'' None]) = Some ''second''
   \<and> sent (run_s toFixed [StartRecording True, StopRecording ''first'' (Some [1 / 2, - 1 / 2]),
       RecordAgain True, StopRecording ''second'' None, Analyze, Base64Settled 0 (Some ''c2Vjb25k'')])
     = [AnalyzeVoice (''Client-side metrics detected: RMS(Volume)='' @ toFixed 3 (rms (compute_metrics [1 / 2, - 1 / 2]))
                   @ '', ZCR(PitchProxy)='' @ toFixed 3 (zcr (compute_metrics [1 / 2, - 1 / 2])) @ ''. '')
          ''c2Vjb25k'']
   \<and> clientMetricsStr toFixed (Some (compute_metrics [1 / 2, - 1 / 2])) \<noteq> []"
  by (simp add: run_s_eval clientMetricsStr_def Let_def)

text \<open>
  Claim C9. In text mode the submit control is enabled exactly when the input view is
  shown and the trimmed text is not empty (and, in the extended variant, a genre is
  selected). With an empty or whitespace-only text a submission changes nothing: the view
  stays as it is, no request is sent and no timer is set.
\<close>

theorem empty_text_never_submits:
  "(inputMode s = TEXT \<longrightarrow>
      enabled_s s Analyze = (view s = INPUT \<and> \<not> loading s \<and> trim (inputText s) \<noteq> []))
   \<and> (activeTab x = TEXT \<longrightarrow>
      enabled_x x CheckWithAI = (view x = INPUT \<and> trim (inputText x) \<noteq> [] \<and> selectedGenres x \<noteq> []))
   \<and> (inputMode s = TEXT \<and> (\<forall>c \<in> set (inputText s). is_space c) \<longrightarrow>
        step_s toFixed s Analyze = s)
   \<and> (activeTab x = TEXT \<and> (\<forall>c \<in> set (inputText x). is_space c) \<longrightarrow>
        step_x toFixed x CheckWithAI = x \<and> step_x toFixed x FindMusic = x)"
proof -
  have a: "enabled_s s Analyze = (view s = INPUT \<and> \<not> loading s \<and> trim (inputText s) \<noteq> [])"
    if "inputMode s = TEXT"
    using that by (simp add: input_view_s_def)
  have b: "enabled_x x CheckWithAI = (view x = INPUT \<and> trim (inputText x) \<noteq> [] \<and> selectedGenres x \<noteq> [])"
    if "activeTab x = TEXT"
    using that by (auto simp: canProceed_def)
  have c: "step_s toFixed s Analyze = s"
    if "inputMode s = TEXT \<and> (\<forall>c \<in> set (inputText s). is_space c)"
  proof -
    from that have "trim (inputText s) = []" by (simp add: trim_empty_iff)
    with that a have "\<not> enabled_s s Analyze" by simp
    then show ?thesis by (simp add: step_s_def)
  qed
  have d: "step_x toFixed x CheckWithAI = x \<and> step_x toFixed x FindMusic = x"
    if "activeTab x = TEXT \<and> (\<forall>c \<in> set (inputText x). is_space c)"
  proof -
    from that have "trim (inputText x) = []" by (simp add: trim_empty_iff)
    with that b have "\<not> enabled_x x CheckWithAI" by simp
    moreover from that have "\<not> enabled_x x FindMusic" by simp
    ultimately show ?thesis by (simp add: step_x_def)
  qed
  from a b c d show ?thesis by blast
qed

text \<open>
  The theorem at a text of one space in each variant; a text that is not blank enables the
  control.
\<close>

theorem empty_text_never_submits_witness:
  "step_s (\<lambda>n v. []) (init_simple\<lparr>inputMode := TEXT, inputText := '' ''\<rparr>) Analyze
     = init_simple\<lparr>inputMode := TEXT, inputText := '' ''\<rparr>
   \<and> step_x (\<lambda>n v. []) (init_extended\<lparr>activeTab := TEXT, selectedGenres := [''pop'']\<rparr>) CheckWithAI
     = init_extended\<lparr>activeTab := TEXT, selectedGenres := [''pop'']\<rparr>
   \<and> enabled_s (init_simple\<lparr>inputMode := TEXT, inputText := ''sad''\<rparr>) Analyze"
proof -
  let ?s = "init_simple\<lparr>inputMode := TEXT, inputText := '' ''\<rparr>"
  let ?x = "init_extended\<lparr>activeTab := TEXT, selectedGenres := [''pop'']\<rparr>"
  let ?t = "init_simple\<lparr>inputMode := TEXT, inputText := ''sad''\<rparr>"
  have hs: "inputMode ?s = TEXT \<and> (\<forall>c \<in> set (inputText ?s). is_space c)"
    by (simp add: is_space_def)
  have hx: "activeTab ?x = TEXT \<and> (\<forall>c \<in> set (inputText ?x). is_space c)"
    by (simp add: init_extended_def)
  have ht: "inputMode ?t = TEXT" by simp
  have tr: "trim (inputText ?t) \<noteq> []" by (simp add: trim_def is_space_def)
  have vt: "view ?t = INPUT \<and> \<not> loading ?t" by (simp add: init_simple_def)
  from empty_text_never_submits [of ?s init_extended "\<lambda>n v. []"] hs
  have 1: "step_s (\<lambda>n v. []) ?s Analyze = ?s" by blast
  from empty_text_never_submits [of init_simple ?x "\<lambda>n v. []"] hx
  have 2: "step_x (\<lambda>n v. []) ?x CheckWithAI = ?x" by blast
  from empty_text_never_submits [of ?t init_extended "\<lambda>n v. []"] ht tr vt
  have 3: "enabled_s ?t Analyze" by blast
  from 1 2 3 show ?thesis by (intro conjI)
qed

text \<open>
  Claim C10. In the extended variant, "Find Music for This Mood" on the sliders tab sends
  exactly one request, the playlist request for the current slider state. While it is in
  flight nothing else can happen but its response; the response leads to the playlist
  view or back to the input view, never to the confirmation view, and sends nothing.
\<close>

theorem sliders_submit_one_playlist_request:
  assumes "s = run_x toFixed evs" and "enabled_x s FindMusic"
    and "s1 = step_x toFixed s FindMusic"
  shows "sent s1 = sent s @ [PlaylistJourney (manualState s) HEALTHY_TARGET (selectedGenres s) (excludedGenres s)]
    \<and> tasks s1 = [AwaitPlaylist] \<and> view s1 = ANALYZING
    \<and> (\<forall>ev. enabled_x s1 ev \<longrightarrow> (\<exists>out. ev = AiSettled 0 out))
    \<and> (\<forall>out. sent (step_x toFixed s1 (AiSettled 0 out)) = sent s1
            \<and> tasks (step_x toFixed s1 (AiSettled 0 out)) = []
            \<and> view (step_x toFixed s1 (AiSettled 0 out)) = (case out of Json data \<Rightarrow> PLAYLIST | _ \<Rightarrow> INPUT))"
proof -
  have inv: "inv_x s" using assms(1) inv_x_run by simp
  from assms(2) have v: "view s = INPUT" by simp
  with inv have nt: "tasks s = []" using input_no_task_x by simp
  have s1: "s1 = generatePlaylist (manualState s) s"
    using assms(2,3) by (simp add: step_x_def)
  have a: "sent s1 = sent s @ [PlaylistJourney (manualState s) HEALTHY_TARGET (selectedGenres s) (excludedGenres s)]"
    by (simp add: s1 generatePlaylist_def)
  have b: "tasks s1 = [AwaitPlaylist]" by (simp add: s1 generatePlaylist_def nt)
  have c: "view s1 = ANALYZING" by (simp add: s1 generatePlaylist_def)
  have d: "\<exists>out. ev = AiSettled 0 out" if "enabled_x s1 ev" for ev
    using that b c by (cases ev) auto
  have e: "sent (step_x toFixed s1 (AiSettled 0 out)) = sent s1
            \<and> tasks (step_x toFixed s1 (AiSettled 0 out)) = []
            \<and> view (step_x toFixed s1 (AiSettled 0 out)) = (case out of Json data \<Rightarrow> PLAYLIST | _ \<Rightarrow> INPUT)" for out
    using b by (cases out) (simp_all add: step_x_def generatePlaylist_response_def generatePlaylist_catch_def drop_task_def)
  from a b c d e show ?thesis by blast
qed

text \<open>
  The theorem after one genre was selected.
\<close>

theorem sliders_submit_one_playlist_request_witness:
  "enabled_x (run_x (\<lambda>n v. []) [ToggleGenre ''jazz'']) FindMusic
   \<and> sent (run_x (\<lambda>n v. []) [ToggleGenre ''jazz'', FindMusic])
       = [PlaylistJourney (Some INITIAL_STATE) HEALTHY_TARGET [''jazz''] []]
   \<and> view (run_x (\<lambda>n v. []) [ToggleGenre ''jazz'', FindMusic, AiSettled 0 (Json (JObj []))]) = PLAYLIST"
proof -
  let ?s = "run_x (\<lambda>n v. []) [ToggleGenre ''jazz'']"
  let ?s1 = "step_x (\<lambda>n v. []) ?s FindMusic"
  have en: "enabled_x ?s FindMusic" by (simp add: run_x_eval)
  have st: "sent ?s = []" "manualState ?s = Some INITIAL_STATE" "selectedGenres ?s = [''jazz'']"
    "excludedGenres ?s = []"
    by (simp_all add: run_x_eval)
  have r1: "run_x (\<lambda>n v. []) [ToggleGenre ''jazz'', FindMusic] = ?s1"
    by (simp add: run_x_def)
  have r2: "run_x (\<lambda>n v. []) [ToggleGenre ''jazz'', FindMusic, AiSettled 0 (Json (JObj []))]
      = step_x (\<lambda>n v. []) ?s1 (AiSettled 0 (Json (JObj [])))"
    by (simp add: run_x_def)
  note t = sliders_submit_one_playlist_request [OF refl en refl]
  from t have "sent ?s1 = sent ?s @ [PlaylistJourney (manualState ?s) HEALTHY_TARGET (selectedGenres ?s) (excludedGenres ?s)]"
    by blast
  then have a: "sent ?s1 = [PlaylistJourney (Some INITIAL_STATE) HEALTHY_TARGET [''jazz''] []]"
    by (simp only: st append_Nil)
  from t have "view (step_x (\<lambda>n v. []) ?s1 (AiSettled 0 (Json (JObj [])))) = (case Json (JObj []) of Json data \<Rightarrow> PLAYLIST | _ \<Rightarrow> INPUT)"
    by blast
  then have b: "view (step_x (\<lambda>n v. []) ?s1 (AiSettled 0 (Json (JObj [])))) = PLAYLIST" by simp
  from en a b show ?thesis unfolding r1 r2 by (intro conjI)
qed

end
